theory Spec2Isabelle
  imports Main "HOL-Library.Char_ord" "HOL-Library.List_Lexorder"
begin

section \<open>The database CLI of the delivery application\<close>

text \<open>
  A shallow embedding of \<^verbatim>\<open>src/tools/cli/cli.py\<close>: the class \<^verbatim>\<open>DatabaseCLI\<close> with its
  methods \<^verbatim>\<open>connect\<close>, \<^verbatim>\<open>disconnect\<close>, \<^verbatim>\<open>execute_sql_file\<close>, \<^verbatim>\<open>migrate\<close>, \<^verbatim>\<open>reset\<close>,
  \<^verbatim>\<open>status\<close>, \<^verbatim>\<open>seed\<close>, \<^verbatim>\<open>cleanup_orphaned_menus\<close>, and the function \<^verbatim>\<open>main\<close>.

  The methods are sequences of calls into the PostgreSQL client library. Each method is a
  state transformer over a \<open>world\<close> that holds the attributes of the object
  (\<^verbatim>\<open>self.conn\<close>, \<^verbatim>\<open>self.cursor\<close>), the database as the server has committed it, the
  database as the open transaction sees it, and a chronological log of every call made to
  the outside. An exception is the \<open>Inl\<close> branch of the result; \<^verbatim>\<open>try\<close>/\<^verbatim>\<open>except\<close>/\<^verbatim>\<open>finally\<close>
  are combinators on such transformers.
\<close>

subsection \<open>Values, rows and the database\<close>

datatype val = I int | S string | Null

type_synonym row = "val list"

record user =
  user_id :: nat
  username :: string
  email :: string
  password_hash :: string
  user_type :: string

record vendor =
  vendor_id :: nat
  vendor_user :: val
  business_name :: string
  vendor_phone :: string
  city :: string

record menu =
  menu_id :: nat
  menu_name :: string
  menu_vendor :: "nat option"
  created_at :: int

text \<open>
  The public schema: the catalogue of table names and enum type names, and the rows of
  the tables the commands read and write (\<^verbatim>\<open>users\<close>, the four profile tables, \<^verbatim>\<open>menus\<close>,
  \<^verbatim>\<open>restaurant_menus\<close>, the latter as the list of its \<^verbatim>\<open>menu_id\<close> column). \<open>rows_of\<close> and
  \<open>size_of\<close> are what \<^verbatim>\<open>COUNT(*)\<close> and \<^verbatim>\<open>pg_size_pretty\<close> report for a table name.
\<close>

record db =
  tables :: "string list"
  enums :: "string list"
  version :: string
  rows_of :: "string \<Rightarrow> nat"
  size_of :: "string \<Rightarrow> string"
  users :: "user list"
  customers :: "(val \<times> string \<times> string) list"
  vendors :: "vendor list"
  drivers :: "(val \<times> string \<times> string \<times> string) list"
  admins :: "(val \<times> string \<times> string) list"
  menus :: "menu list"
  restaurant_menus :: "nat list"

subsection \<open>The statements the program sends\<close>

text \<open>One constructor for each SQL text in the source, with its parameters.\<close>

datatype stmt =
    Batch string
  | SelectTables
  | DropTable string
  | SelectEnums
  | DropType string
  | SelectVersion
  | SelectTablesSized
  | CountRows string
  | InsertUser string string string string
  | InsertCustomer val string string
  | InsertVendor val string string string
  | InsertDriver val string string string
  | InsertAdmin val string string
  | SelectOrphans
  | DeleteOrphans
  | CountOrphans
  | SelectStats

text \<open>
  The exceptions a run can meet, each with its message, the text \<^verbatim>\<open>str(e)\<close> that an error
  line shows. \<open>Psycopg2Error\<close> stands for every error the client library raises
  (\<^verbatim>\<open>OperationalError\<close>, \<^verbatim>\<open>ProgrammingError\<close>, \<^verbatim>\<open>InterfaceError\<close>, ...).
\<close>

datatype exn =
    ValueError string
  | AttributeError string
  | TypeError string
  | IndexError string
  | EOFError string
  | OSError string
  | Psycopg2Error string

text \<open>
  The calls a run makes to the outside, as the log records them. A call is logged when it
  is made, whether or not it then raises. \<open>Disconnect\<close> is the call of the method
  \<^verbatim>\<open>disconnect\<close>. \<open>Print f vs\<close> is a printed line: \<open>f\<close> is its text with \<^verbatim>\<open>{}\<close> for each
  formatted value, without the status mark and the line breaks around it, and \<open>vs\<close> are
  the values.
\<close>

datatype event =
    ConnectCall string
  | CursorCall
  | Execute stmt
  | Commit
  | Rollback
  | CursorClose
  | ConnClose
  | Disconnect
  | OpenFile string
  | Input string
  | Print string "val list"

subsection \<open>The environment of one process run\<close>

text \<open>
  Everything the program obtains from outside: the variable \<^verbatim>\<open>DATABASE_URL\<close>, the file
  system (\<open>path_exists\<close> is \<^verbatim>\<open>os.path.exists\<close>, \<open>file_text\<close> is what \<^verbatim>\<open>open(p).read()\<close>
  yields, \<open>None\<close> when it raises), the absolute path of the script, the line that
  \<^verbatim>\<open>input()\<close> reads (\<open>None\<close> at end of input), the salted hash function, the effect of an
  accepted SQL batch on the database, and \<open>faults\<close>: the engine call numbers at which
  the engine raises. A call is numbered by the \<open>clock\<close> of the world; the numbered calls
  are \<^verbatim>\<open>psycopg2.connect\<close>, \<^verbatim>\<open>conn.cursor\<close>, \<^verbatim>\<open>cursor.execute\<close>, \<^verbatim>\<open>conn.commit\<close> and
  \<^verbatim>\<open>conn.rollback\<close>. Why a call raises (a missing table, a violated constraint, a lost
  session, on which the rollback in a handler raises as well) is left to \<open>faults\<close>; the
  model fixes only what an accepted call does. The messages of the errors that come from
  outside are given with them: \<open>fault_text n\<close> is the message of the error the engine
  raises at call \<open>n\<close>, \<open>file_error p\<close> the message of the error that opening or reading
  \<open>p\<close> raises, \<open>unpack_text k n\<close> the interpreter's message for unpacking a tuple of \<open>n\<close>
  values into \<open>k\<close> names. \<^verbatim>\<open>cursor.close\<close>, \<^verbatim>\<open>conn.close\<close> and \<^verbatim>\<open>print\<close> are taken to
  return normally.
\<close>

record env =
  getenv_DATABASE_URL :: "string option"
  path_exists :: "string \<Rightarrow> bool"
  file_text :: "string \<Rightarrow> string option"
  script_file :: string
  stdin :: "string option"
  hashpw :: "nat \<Rightarrow> string \<Rightarrow> string"
  batch :: "string \<Rightarrow> db \<Rightarrow> db"
  faults :: "nat \<Rightarrow> bool"
  fault_text :: "nat \<Rightarrow> string"
  file_error :: "string \<Rightarrow> string"
  unpack_text :: "nat \<Rightarrow> nat \<Rightarrow> string"

record world =
  db_url :: string
  committed :: db
  working :: db
  conn :: bool
  cursor :: bool
  results :: "row list"
  rowcount :: int
  salts :: nat
  clock :: nat
  trace :: "event list"

text \<open>The process before the object is constructed, on a server whose database is \<open>d\<close>.\<close>

definition fresh :: "db \<Rightarrow> world" where
  "fresh d = \<lparr>db_url = [], committed = d, working = d, conn = False, cursor = False,
     results = [], rowcount = - 1, salts = 0, clock = 0, trace = []\<rparr>"

text \<open>The object \<^verbatim>\<open>DatabaseCLI(url)\<close> as its constructor leaves it.\<close>

definition cli :: "string \<Rightarrow> db \<Rightarrow> world" where
  "cli url d = (fresh d)\<lparr>db_url := url\<rparr>"

subsection \<open>Exceptions and control flow\<close>

type_synonym 'a prog = "world \<Rightarrow> (exn + 'a) \<times> world"

definition returnE :: "'a \<Rightarrow> 'a prog" where
  "returnE x w = (Inr x, w)"

definition raiseE :: "exn \<Rightarrow> 'a prog" where
  "raiseE e w = (Inl e, w)"

definition bindE :: "'a prog \<Rightarrow> ('a \<Rightarrow> 'b prog) \<Rightarrow> 'b prog" where
  "bindE m k w = (case m w of (Inl e, w') \<Rightarrow> (Inl e, w') | (Inr x, w') \<Rightarrow> k x w')"

definition thenE :: "'a prog \<Rightarrow> 'b prog \<Rightarrow> 'b prog" where
  "thenE m n = bindE m (\<lambda>_. n)"

text \<open>\<^verbatim>\<open>try: m  except Exception as e: h e\<close>\<close>

definition catchE :: "'a prog \<Rightarrow> (exn \<Rightarrow> 'a prog) \<Rightarrow> 'a prog" where
  "catchE m h w = (case m w of (Inl e, w') \<Rightarrow> h e w' | (Inr x, w') \<Rightarrow> (Inr x, w'))"

text \<open>
  \<^verbatim>\<open>try: m  finally: fin\<close>: \<open>fin\<close> runs whatever \<open>m\<close> did; the outcome is that of \<open>m\<close>
  unless \<open>fin\<close> itself raises.
\<close>

definition finallyE :: "'a prog \<Rightarrow> unit prog \<Rightarrow> 'a prog" where
  "finallyE m fin w =
     (case m w of (r, w') \<Rightarrow>
        (case fin w' of (Inl e, w'') \<Rightarrow> (Inl e, w'') | (Inr _, w'') \<Rightarrow> (r, w'')))"

text \<open>\<^verbatim>\<open>for x in xs: body x\<close>\<close>

fun forE :: "'a list \<Rightarrow> ('a \<Rightarrow> unit prog) \<Rightarrow> unit prog" where
  "forE [] body = returnE ()"
| "forE (x # xs) body = bindE (body x) (\<lambda>_. forE xs body)"

definition emit :: "event \<Rightarrow> world \<Rightarrow> world" where
  "emit e w = w\<lparr>trace := trace w @ [e]\<rparr>"

definition tick :: "world \<Rightarrow> world" where
  "tick w = w\<lparr>clock := Suc (clock w)\<rparr>"

definition print :: "string \<Rightarrow> val list \<Rightarrow> unit prog" where
  "print fmt args w = (Inr (), emit (Print fmt args) w)"

text \<open>\<^verbatim>\<open>str(e)\<close>: the message the exception carries.\<close>

fun str_exn :: "exn \<Rightarrow> string" where
  "str_exn (ValueError m) = m"
| "str_exn (AttributeError m) = m"
| "str_exn (TypeError m) = m"
| "str_exn (IndexError m) = m"
| "str_exn (EOFError m) = m"
| "str_exn (OSError m) = m"
| "str_exn (Psycopg2Error m) = m"

text \<open>The errors of the interpreter on \<^verbatim>\<open>None.name\<close>, \<^verbatim>\<open>None[i]\<close> and \<^verbatim>\<open>t[i]\<close> out of range.\<close>

definition quoted :: "string \<Rightarrow> string" where
  "quoted s = CHR 0x27 # s @ [CHR 0x27]"

definition no_attribute :: "string \<Rightarrow> exn" where
  "no_attribute a =
     AttributeError (quoted ''NoneType'' @ '' object has no attribute '' @ quoted a)"

definition not_subscriptable :: exn where
  "not_subscriptable = TypeError (quoted ''NoneType'' @ '' object is not subscriptable'')"

definition out_of_range :: exn where
  "out_of_range = IndexError ''tuple index out of range''"

definition getsE :: "(world \<Rightarrow> 'a) \<Rightarrow> 'a prog" where
  "getsE f w = (Inr (f w), w)"

definition whenE :: "bool \<Rightarrow> unit prog \<Rightarrow> unit prog" where
  "whenE b m = (if b then m else returnE ())"

subsection \<open>Python values\<close>

text \<open>Truthiness of a value (\<^verbatim>\<open>None\<close>, \<^verbatim>\<open>0\<close> and the empty string are false).\<close>

fun truthy :: "val \<Rightarrow> bool" where
  "truthy Null = False"
| "truthy (I n) = (n \<noteq> 0)"
| "truthy (S s) = (s \<noteq> [])"

text \<open>\<^verbatim>\<open>r[i]\<close> on a tuple, and on the result of \<^verbatim>\<open>fetchone()\<close>, which may be \<^verbatim>\<open>None\<close>.\<close>

definition item :: "row \<Rightarrow> nat \<Rightarrow> val prog" where
  "item r i = (if i < length r then returnE (r ! i) else raiseE out_of_range)"

definition item_opt :: "row option \<Rightarrow> nat \<Rightarrow> val prog" where
  "item_opt r i = (case r of None \<Rightarrow> raiseE not_subscriptable | Some t \<Rightarrow> item t i)"

text \<open>\<^verbatim>\<open>sql.Identifier(x)\<close> accepts strings only.\<close>

definition sql_Identifier :: "val \<Rightarrow> string prog" where
  "sql_Identifier v = (case v of S s \<Rightarrow> returnE s
     | _ \<Rightarrow> raiseE (TypeError ''SQL identifier parts must be strings''))"

text \<open>\<^verbatim>\<open>s.lower()\<close>, on the letters A to Z; no other character lowers to an ASCII letter
  of the word \<^verbatim>\<open>yes\<close>, the only string the result is compared with.\<close>

definition lower_char :: "char \<Rightarrow> char" where
  "lower_char c = (let n = of_char c :: nat in
     if 65 \<le> n \<and> n \<le> 90 then char_of (n + 32) else c)"

definition lower :: "string \<Rightarrow> string" where
  "lower s = map lower_char s"

subsection \<open>Paths (\<^verbatim>\<open>posixpath\<close>)\<close>

definition isabs :: "string \<Rightarrow> bool" where
  "isabs p = (case p of [] \<Rightarrow> False | c # _ \<Rightarrow> c = CHR ''/'')"

definition dirname :: "string \<Rightarrow> string" where
  "dirname p = (let head = rev (dropWhile (\<lambda>c. c \<noteq> CHR ''/'') (rev p)) in
     if head \<noteq> [] \<and> \<not> list_all (\<lambda>c. c = CHR ''/'') head
     then rev (dropWhile (\<lambda>c. c = CHR ''/'') (rev head)) else head)"

definition join :: "string \<Rightarrow> string \<Rightarrow> string" where
  "join a b = (if isabs b then b
     else if a = [] \<or> last a = CHR ''/'' then a @ b
     else a @ ''/'' @ b)"

subsection \<open>The SQL engine\<close>

text \<open>
  What an accepted statement returns and does to the database the transaction sees: the
  result rows, the row count, and the new database. Identifiers are serial: a new row
  gets an identifier above every one in its table. A query without \<^verbatim>\<open>ORDER BY\<close> returns
  its rows in the order of the stored list; the sized table listing is ordered by table
  name, the orphaned menus by creation time, latest first. \<^verbatim>\<open>DROP ... IF EXISTS ... CASCADE\<close>
  removes the named object from the catalogue.
\<close>

definition next_id :: "nat list \<Rightarrow> nat" where
  "next_id ids = Suc (fold max ids 0)"

definition is_orphan :: "db \<Rightarrow> menu \<Rightarrow> bool" where
  "is_orphan d m = (menu_id m \<notin> set (restaurant_menus d))"

definition vendor_name_of :: "db \<Rightarrow> menu \<Rightarrow> val" where
  "vendor_name_of d m = (case menu_vendor m of None \<Rightarrow> Null
     | Some v \<Rightarrow> (case find (\<lambda>x. vendor_id x = v) (vendors d) of
         None \<Rightarrow> Null | Some x \<Rightarrow> S (business_name x)))"

definition orphan_row :: "db \<Rightarrow> menu \<Rightarrow> row" where
  "orphan_row d m = [I (int (menu_id m)), S (menu_name m),
     (case menu_vendor m of None \<Rightarrow> Null | Some v \<Rightarrow> I (int v)),
     vendor_name_of d m, I (created_at m)]"

definition orphans :: "db \<Rightarrow> menu list" where
  "orphans d = rev (sort_key created_at (filter (is_orphan d) (menus d)))"

fun run_stmt :: "env \<Rightarrow> stmt \<Rightarrow> db \<Rightarrow> row list \<times> int \<times> db" where
  "run_stmt E (Batch c) d = ([], - 1, batch E c d)"
| "run_stmt E SelectTables d = (map (\<lambda>t. [S t]) (tables d), int (length (tables d)), d)"
| "run_stmt E (DropTable t) d = ([], - 1, d\<lparr>tables := removeAll t (tables d)\<rparr>)"
| "run_stmt E SelectEnums d = (map (\<lambda>t. [S t]) (enums d), int (length (enums d)), d)"
| "run_stmt E (DropType t) d = ([], - 1, d\<lparr>enums := removeAll t (enums d)\<rparr>)"
| "run_stmt E SelectVersion d = ([[S (version d)]], 1, d)"
| "run_stmt E SelectTablesSized d =
     (map (\<lambda>t. [S t, S (size_of d t)]) (sort (tables d)), int (length (tables d)), d)"
| "run_stmt E (CountRows t) d = ([[I (int (rows_of d t))]], 1, d)"
| "run_stmt E (InsertUser u e h t) d =
     (if u \<in> username ` set (users d) then ([], 0, d)
      else let i = next_id (map user_id (users d)) in
        ([[I (int i)]], 1,
         d\<lparr>users := users d @ [\<lparr>user_id = i, username = u, email = e,
              password_hash = h, user_type = t\<rparr>]\<rparr>))"
| "run_stmt E (InsertCustomer v n p) d = ([], 1, d\<lparr>customers := customers d @ [(v, n, p)]\<rparr>)"
| "run_stmt E (InsertVendor v n p c) d =
     ([], 1, d\<lparr>vendors := vendors d @ [\<lparr>vendor_id = next_id (map vendor_id (vendors d)),
        vendor_user = v, business_name = n, vendor_phone = p, city = c\<rparr>]\<rparr>)"
| "run_stmt E (InsertDriver v n p c) d = ([], 1, d\<lparr>drivers := drivers d @ [(v, n, p, c)]\<rparr>)"
| "run_stmt E (InsertAdmin v n r) d = ([], 1, d\<lparr>admins := admins d @ [(v, n, r)]\<rparr>)"
| "run_stmt E SelectOrphans d =
     (map (orphan_row d) (orphans d), int (length (orphans d)), d)"
| "run_stmt E DeleteOrphans d =
     ([], int (length (filter (is_orphan d) (menus d))),
      d\<lparr>menus := filter (\<lambda>m. \<not> is_orphan d m) (menus d)\<rparr>)"
| "run_stmt E CountOrphans d = ([[I (int (length (orphans d)))]], 1, d)"
| "run_stmt E SelectStats d =
     ([[I (int (length (menus d))), I (int (length (restaurant_menus d))),
        I (int (length (remdups (restaurant_menus d))))]], 1, d)"

subsection \<open>The client library\<close>

text \<open>\<^verbatim>\<open>psycopg2.connect(url)\<close>: a new session sees the committed database.\<close>

definition psycopg2_connect :: "env \<Rightarrow> unit prog" where
  "psycopg2_connect E w = (let w1 = emit (ConnectCall (db_url w)) w in
     if faults E (clock w1) then (Inl (Psycopg2Error (fault_text E (clock w1))), tick w1)
     else (Inr (), (tick w1)\<lparr>conn := True, working := committed w1\<rparr>))"

text \<open>\<^verbatim>\<open>self.conn.cursor()\<close>\<close>

definition conn_cursor :: "env \<Rightarrow> unit prog" where
  "conn_cursor E w = (let w1 = emit CursorCall w in
     if \<not> conn w1 then (Inl (no_attribute ''cursor''), w1)
     else if faults E (clock w1) then (Inl (Psycopg2Error (fault_text E (clock w1))), tick w1)
     else (Inr (), (tick w1)\<lparr>cursor := True, results := []\<rparr>))"

text \<open>\<^verbatim>\<open>self.cursor.execute(stmt)\<close>: a rejected statement changes nothing.\<close>

definition execute :: "env \<Rightarrow> stmt \<Rightarrow> unit prog" where
  "execute E s w = (let w1 = emit (Execute s) w in
     if \<not> cursor w1 then (Inl (no_attribute ''execute''), w1)
     else if faults E (clock w1) then (Inl (Psycopg2Error (fault_text E (clock w1))), tick w1)
     else (case run_stmt E s (working w1) of (rows, n, d) \<Rightarrow>
       (Inr (), (tick w1)\<lparr>working := d, results := rows, rowcount := n\<rparr>)))"

definition fetchall :: "row list prog" where
  "fetchall w = (if \<not> cursor w then (Inl (no_attribute ''fetchall''), w)
     else (Inr (results w), w\<lparr>results := []\<rparr>))"

definition fetchone :: "row option prog" where
  "fetchone w = (if \<not> cursor w then (Inl (no_attribute ''fetchone''), w)
     else (case results w of [] \<Rightarrow> (Inr None, w)
       | r # rs \<Rightarrow> (Inr (Some r), w\<lparr>results := rs\<rparr>)))"

text \<open>\<^verbatim>\<open>self.conn.commit()\<close>: what the transaction did becomes the committed database.\<close>

definition commit :: "env \<Rightarrow> unit prog" where
  "commit E w = (let w1 = emit Commit w in
     if \<not> conn w1 then (Inl (no_attribute ''commit''), w1)
     else if faults E (clock w1) then (Inl (Psycopg2Error (fault_text E (clock w1))), tick w1)
     else (Inr (), (tick w1)\<lparr>committed := working w1\<rparr>))"

text \<open>
  \<^verbatim>\<open>self.conn.rollback()\<close>: the transaction's work is discarded. On a session that is
  lost the call raises, as any call to the engine does.
\<close>

definition rollback :: "env \<Rightarrow> unit prog" where
  "rollback E w = (let w1 = emit Rollback w in
     if \<not> conn w1 then (Inl (no_attribute ''rollback''), w1)
     else if faults E (clock w1) then (Inl (Psycopg2Error (fault_text E (clock w1))), tick w1)
     else (Inr (), (tick w1)\<lparr>working := committed w1\<rparr>))"

definition cursor_close :: "unit prog" where
  "cursor_close w = (Inr (), emit CursorClose w)"

text \<open>\<^verbatim>\<open>self.conn.close()\<close>: work that was not committed is lost.\<close>

definition conn_close :: "unit prog" where
  "conn_close w = (Inr (), (emit ConnClose w)\<lparr>working := committed w\<rparr>)"

text \<open>\<^verbatim>\<open>open(filepath, 'r').read()\<close>\<close>

definition read_file :: "env \<Rightarrow> string \<Rightarrow> string prog" where
  "read_file E p w = (let w1 = emit (OpenFile p) w in
     case file_text E p of None \<Rightarrow> (Inl (OSError (file_error E p)), w1)
       | Some c \<Rightarrow> (Inr c, w1))"

text \<open>\<^verbatim>\<open>input(prompt)\<close>\<close>

definition input :: "env \<Rightarrow> string \<Rightarrow> string prog" where
  "input E prompt w = (let w1 = emit (Input prompt) w in
     case stdin E of None \<Rightarrow> (Inl (EOFError ''EOF when reading a line''), w1)
       | Some s \<Rightarrow> (Inr s, w1))"

text \<open>\<^verbatim>\<open>bcrypt.hashpw(password, bcrypt.gensalt())\<close>: each call draws a new salt.\<close>

definition bcrypt_hashpw :: "env \<Rightarrow> string \<Rightarrow> string prog" where
  "bcrypt_hashpw E pw w = (Inr (hashpw E (salts w) pw), w\<lparr>salts := Suc (salts w)\<rparr>)"

subsection \<open>\<^verbatim>\<open>DatabaseCLI\<close>: connection and SQL files\<close>

text \<open>
  \<^verbatim>\<open>__init__\<close>: \<^verbatim>\<open>self.db_url = db_url or os.getenv('DATABASE_URL')\<close>, and a
  \<^verbatim>\<open>ValueError\<close> when that is \<^verbatim>\<open>None\<close> or empty.
\<close>

definition DatabaseCLI_init :: "env \<Rightarrow> string option \<Rightarrow> unit prog" where
  "DatabaseCLI_init E url w =
     (let u = (case url of None \<Rightarrow> getenv_DATABASE_URL E
                | Some s \<Rightarrow> if s \<noteq> [] then Some s else getenv_DATABASE_URL E)
      in case u of
           None \<Rightarrow> (Inl (ValueError ''DATABASE_URL environment variable is required''), w)
         | Some s \<Rightarrow>
             if s = []
             then (Inl (ValueError ''DATABASE_URL environment variable is required''), w)
             else (Inr (), w\<lparr>db_url := s, conn := False, cursor := False\<rparr>))"

definition connect :: "env \<Rightarrow> bool prog" where
  "connect E =
     catchE
       (thenE (psycopg2_connect E)
       (thenE (conn_cursor E)
       (thenE (print ''Connected to database successfully'' [])
       (returnE True))))
       (\<lambda>e. thenE (print ''Database connection failed: {}'' [S (str_exn e)])
             (returnE False))"

definition disconnect :: "unit prog" where
  "disconnect =
     thenE (\<lambda>w. (Inr (), emit Disconnect w))
     (bindE (getsE cursor) (\<lambda>c.
      thenE (whenE c cursor_close)
     (bindE (getsE conn) (\<lambda>c.
      thenE (whenE c conn_close)
     (print ''Database connection closed'' [])))))"

definition execute_sql_file :: "env \<Rightarrow> string \<Rightarrow> bool prog" where
  "execute_sql_file E filepath =
     catchE
       (bindE (read_file E filepath) (\<lambda>sql_content.
        thenE (execute E (Batch sql_content))
       (thenE (commit E)
       (thenE (print ''Successfully executed SQL file: {}'' [S filepath])
       (returnE True)))))
       (\<lambda>e. thenE (rollback E)
            (thenE (print ''Error executing SQL file: {}'' [S (str_exn e)])
            (returnE False)))"

subsection \<open>\<^verbatim>\<open>migrate\<close>\<close>

text \<open>Step 2 of \<^verbatim>\<open>migrate\<close>: the schema file.\<close>

definition migrate_schema :: "env \<Rightarrow> string \<Rightarrow> bool prog" where
  "migrate_schema E schema_path =
     thenE (print ''Step 2: Creating tables and objects from schema...'' [])
    (bindE (execute_sql_file E schema_path) (\<lambda>success.
     thenE (if success then print ''Migration completed successfully'' []
            else print ''Migration failed'' [])
    (returnE success)))"

text \<open>The body of the \<^verbatim>\<open>try\<close> of \<^verbatim>\<open>migrate\<close>.\<close>

definition migrate_body :: "env \<Rightarrow> string \<Rightarrow> string \<Rightarrow> bool prog" where
  "migrate_body E schema_path drop_all_path =
     (if path_exists E drop_all_path then
        thenE (print ''Step 1: Dropping all existing tables and objects...'' [])
       (bindE (execute_sql_file E drop_all_path) (\<lambda>drop_success.
        if \<not> drop_success then
          thenE (print ''Failed to drop existing tables'' []) (returnE False)
        else migrate_schema E schema_path))
      else
        thenE (print ''Drop script not found at {}, skipping drop step'' [S drop_all_path])
       (migrate_schema E schema_path))"

definition resolve_schema :: "env \<Rightarrow> string \<Rightarrow> string" where
  "resolve_schema E schema_path =
     (if \<not> isabs schema_path then
        (let script_dir = dirname (script_file E);
             project_root = dirname (dirname script_dir)
         in join project_root schema_path)
      else schema_path)"

definition migrate :: "env \<Rightarrow> string \<Rightarrow> bool prog" where
  "migrate E schema_arg =
     thenE (print ''=== Running Database Migrations ==='' [])
     (let schema_path = resolve_schema E schema_arg in
      if \<not> path_exists E schema_path then
        thenE (print ''Schema file not found: {}'' [S schema_path]) (returnE False)
      else
        (let schema_dir = dirname schema_path;
             drop_all_path = join schema_dir ''drop_all.sql''
         in bindE (connect E) (\<lambda>ok.
              if \<not> ok then returnE False
              else finallyE (migrate_body E schema_path drop_all_path) disconnect)))"

subsection \<open>\<^verbatim>\<open>reset\<close>\<close>

definition drop_table :: "env \<Rightarrow> row \<Rightarrow> unit prog" where
  "drop_table E table =
     bindE (item table 0) (\<lambda>t.
     bindE (sql_Identifier t) (\<lambda>name.
     thenE (execute E (DropTable name))
    (bindE (item table 0) (\<lambda>t. print ''Dropped table: {}'' [t]))))"

definition drop_type :: "env \<Rightarrow> row \<Rightarrow> unit prog" where
  "drop_type E type_name =
     bindE (item type_name 0) (\<lambda>t.
     bindE (sql_Identifier t) (\<lambda>name.
     thenE (execute E (DropType name))
    (bindE (item type_name 0) (\<lambda>t. print ''Dropped type: {}'' [t]))))"

definition reset_body :: "env \<Rightarrow> bool prog" where
  "reset_body E =
     thenE (execute E SelectTables)
    (bindE fetchall (\<lambda>tables.
     if tables = [] then
       thenE (print ''No tables to drop'' []) (returnE True)
     else
       thenE (print ''Dropping {} tables...'' [I (int (length tables))])
      (thenE (forE tables (drop_table E))
      (thenE (execute E SelectEnums)
      (bindE fetchall (\<lambda>types.
       thenE (forE types (drop_type E))
      (thenE (commit E)
      (thenE (print ''Database reset successfully'' [])
      (returnE True)))))))))"

definition reset :: "env \<Rightarrow> bool prog" where
  "reset E =
     thenE (print ''=== Resetting Database ==='' [])
    (bindE (connect E) (\<lambda>ok.
     if \<not> ok then returnE False
     else finallyE
       (catchE (reset_body E)
          (\<lambda>e. thenE (rollback E)
               (thenE (print ''Error resetting database: {}'' [S (str_exn e)])
               (returnE False))))
       disconnect))"

subsection \<open>\<^verbatim>\<open>status\<close>\<close>

text \<open>Tuple unpacking in a \<^verbatim>\<open>for\<close> header raises \<^verbatim>\<open>ValueError\<close> on another arity.\<close>

definition unpack2 :: "env \<Rightarrow> row \<Rightarrow> (val \<times> val) prog" where
  "unpack2 E r = (case r of [a, b] \<Rightarrow> returnE (a, b)
     | _ \<Rightarrow> raiseE (ValueError (unpack_text E 2 (length r))))"

definition unpack5 :: "env \<Rightarrow> row \<Rightarrow> (val \<times> val \<times> val \<times> val \<times> val) prog" where
  "unpack5 E r = (case r of [a, b, c, d, e] \<Rightarrow> returnE (a, b, c, d, e)
     | _ \<Rightarrow> raiseE (ValueError (unpack_text E 5 (length r))))"

definition status_table :: "env \<Rightarrow> row \<Rightarrow> unit prog" where
  "status_table E r =
     bindE (unpack2 E r) (\<lambda>(table, size).
     bindE (sql_Identifier table) (\<lambda>name.
     thenE (execute E (CountRows name))
    (bindE fetchone (\<lambda>res.
     bindE (item_opt res 0) (\<lambda>count.
     print ''{} {} rows  {}'' [table, count, size])))))"

definition status_body :: "env \<Rightarrow> bool prog" where
  "status_body E =
     thenE (execute E SelectVersion)
    (bindE fetchone (\<lambda>res.
     bindE (item_opt res 0) (\<lambda>version.
     thenE (print ''PostgreSQL Version: {}'' [version])
    (thenE (execute E SelectTablesSized)
    (bindE fetchall (\<lambda>tables.
     thenE (if tables \<noteq> [] then
              thenE (print ''Tables ({}):'' [I (int (length tables))])
                    (forE tables (status_table E))
            else print ''No tables found'' [])
    (thenE (execute E SelectEnums)
    (bindE fetchall (\<lambda>types.
     thenE (whenE (types \<noteq> [])
              (thenE (print ''Custom Types ({}):'' [I (int (length types))])
                     (forE types (\<lambda>type_name.
                        bindE (item type_name 0) (\<lambda>t. print ''{}'' [t])))))
    (returnE True))))))))))"

definition status :: "env \<Rightarrow> bool prog" where
  "status E =
     thenE (print ''=== Database Status ==='' [])
    (bindE (connect E) (\<lambda>ok.
     if \<not> ok then returnE False
     else finallyE
       (catchE (status_body E)
          (\<lambda>e. thenE (print ''Error checking database status: {}'' [S (str_exn e)])
               (returnE False)))
       disconnect))"

subsection \<open>\<^verbatim>\<open>seed\<close>\<close>

definition sample_users :: "(string \<times> string \<times> string \<times> string) list" where
  "sample_users =
     [(''customer1'', ''customer1@example.com'', ''password123'', ''customer''),
      (''vendor1'', ''vendor1@example.com'', ''password123'', ''vendor''),
      (''driver1'', ''driver1@example.com'', ''password123'', ''driver''),
      (''admin1'', ''admin1@example.com'', ''password123'', ''admin'')]"

text \<open>The \<^verbatim>\<open>if\<close>/\<^verbatim>\<open>elif\<close> chain that creates the profile row of a new user.\<close>

definition seed_profile :: "env \<Rightarrow> val \<Rightarrow> string \<Rightarrow> string \<Rightarrow> unit prog" where
  "seed_profile E uid uname utype =
     (if utype = ''customer'' then
        execute E (InsertCustomer uid (''Customer '' @ uname) ''+1234567890'')
      else if utype = ''vendor'' then
        execute E (InsertVendor uid (''Business '' @ uname) ''+1234567890'' ''New York'')
      else if utype = ''driver'' then
        execute E (InsertDriver uid (''Driver '' @ uname) ''+1234567890'' ''Car'')
      else if utype = ''admin'' then
        execute E (InsertAdmin uid (''Admin '' @ uname) ''System Administrator'')
      else returnE ())"

text \<open>One round of the loop; \<^verbatim>\<open>if result:\<close> holds for a non-empty tuple.\<close>

definition seed_user :: "env \<Rightarrow> string \<times> string \<times> string \<times> string \<Rightarrow> unit prog" where
  "seed_user E = (\<lambda>(uname, mail, password, utype).
     bindE (bcrypt_hashpw E password) (\<lambda>pwhash.
     thenE (execute E (InsertUser uname mail pwhash utype))
    (bindE fetchone (\<lambda>result.
     if result \<noteq> None \<and> result \<noteq> Some [] then
       bindE (item_opt result 0) (\<lambda>uid.
       thenE (print ''Created user: {} ({})'' [S uname, S utype])
      (seed_profile E uid uname utype))
     else returnE ()))))"

definition seed_body :: "env \<Rightarrow> bool prog" where
  "seed_body E =
     thenE (print ''Creating sample users...'' [])
    (thenE (forE sample_users (seed_user E))
    (thenE (commit E)
    (thenE (print ''Database seeded successfully'' [])
    (thenE (print ''Sample credentials:'' [])
    (thenE (print ''  Username: customer1, Password: password123 (Customer)'' [])
    (thenE (print ''  Username: vendor1,   Password: password123 (Vendor)'' [])
    (thenE (print ''  Username: driver1,   Password: password123 (Driver)'' [])
    (thenE (print ''  Username: admin1,    Password: password123 (Admin)'' [])
    (returnE True)))))))))"

definition seed :: "env \<Rightarrow> bool prog" where
  "seed E =
     thenE (print ''=== Seeding Database ==='' [])
    (bindE (connect E) (\<lambda>ok.
     if \<not> ok then returnE False
     else finallyE
       (catchE (seed_body E)
          (\<lambda>e. thenE (rollback E)
               (thenE (print ''Error seeding database: {}'' [S (str_exn e)])
               (returnE False))))
       disconnect))"

subsection \<open>\<^verbatim>\<open>cleanup_orphaned_menus\<close>\<close>

definition show_orphan :: "env \<Rightarrow> row \<Rightarrow> unit prog" where
  "show_orphan E r =
     bindE (unpack5 E r) (\<lambda>(mid, name, vid, vendor_name, created).
       let vendor_display =
             (if truthy vendor_name then vendor_name else S ''NO VENDOR (System Menu)'')
       in print ''ID: {} | {} | {} | Created: {}'' [mid, name, vendor_display, created])"

text \<open>What follows the confirmation: the deletion, its commit, the check, the statistics.\<close>

definition cleanup_delete :: "env \<Rightarrow> bool prog" where
  "cleanup_delete E =
     thenE (execute E DeleteOrphans)
    (bindE (getsE rowcount) (\<lambda>deleted_count.
     thenE (commit E)
    (thenE (print ''Successfully deleted {} orphaned menu(s)'' [I deleted_count])
    (thenE (execute E CountOrphans)
    (bindE fetchone (\<lambda>res.
     bindE (item_opt res 0) (\<lambda>remaining.
     thenE (if remaining = I 0 then print ''All orphaned menus have been removed'' []
            else print ''Warning: {} orphaned menu(s) still exist'' [remaining])
    (thenE (execute E SelectStats)
    (bindE fetchone (\<lambda>stats.
     thenE (print ''Final Statistics:'' [])
    (bindE (item_opt stats 0) (\<lambda>s0.
     thenE (print ''  Total menus:             {}'' [s0])
    (bindE (item_opt stats 2) (\<lambda>s2.
     thenE (print ''  Menus with restaurants:  {}'' [s2])
    (bindE (item_opt stats 1) (\<lambda>s1.
     thenE (print ''  Menu assignments:        {}'' [s1])
    (returnE True)))))))))))))))))"

definition cleanup_body :: "env \<Rightarrow> bool \<Rightarrow> bool prog" where
  "cleanup_body E dry_run =
     thenE (execute E SelectOrphans)
    (bindE fetchall (\<lambda>orphaned_menus.
     if orphaned_menus = [] then
       thenE (print ''No orphaned menus found. Database is clean!'' []) (returnE True)
     else
       thenE (print ''Found {} orphaned menu(s):'' [I (int (length orphaned_menus))])
      (thenE (print (replicate 80 CHR ''-'') [])
      (thenE (forE orphaned_menus (show_orphan E))
      (thenE (print (replicate 80 CHR ''-'') [])
      (if dry_run then
         thenE (print ''DRY RUN MODE: No changes will be made'' [])
        (thenE (print ''  To actually delete orphaned menus, run with --execute flag:'' [])
        (thenE (print ''  python cli.py cleanup-orphaned-menus --execute'' [])
        (returnE True)))
       else
         thenE (print ''WARNING: This will permanently delete the above menus!'' [])
        (bindE (input E ''Are you sure you want to continue? (yes/no): '') (\<lambda>response.
         if lower response \<noteq> ''yes'' then
           thenE (print ''Cleanup cancelled by user'' []) (returnE False)
         else cleanup_delete E))))))))"

definition cleanup_orphaned_menus :: "env \<Rightarrow> bool \<Rightarrow> bool prog" where
  "cleanup_orphaned_menus E dry_run =
     thenE (print ''=== Cleaning Up Orphaned Menus ==='' [])
    (bindE (connect E) (\<lambda>ok.
     if \<not> ok then returnE False
     else finallyE
       (catchE (cleanup_body E dry_run)
          (\<lambda>e. thenE (rollback E)
               (thenE (print ''Error cleaning up orphaned menus: {}'' [S (str_exn e)])
               (returnE False))))
       disconnect))"

subsection \<open>\<^verbatim>\<open>main\<close>\<close>

text \<open>
  The parsed command line: \<^verbatim>\<open>args.command\<close>, \<^verbatim>\<open>args.db_url\<close>, \<^verbatim>\<open>args.schema\<close>,
  \<^verbatim>\<open>args.execute\<close>. \<open>main\<close> is the function from the line after \<^verbatim>\<open>parse_args()\<close>; its
  value is the exit code given to \<^verbatim>\<open>sys.exit\<close>, whose \<^verbatim>\<open>SystemExit\<close> the handler
  \<^verbatim>\<open>except Exception\<close> does not catch.
\<close>

record args =
  command :: string
  arg_db_url :: "string option"
  arg_schema :: string
  arg_execute :: bool

definition dispatch :: "env \<Rightarrow> args \<Rightarrow> bool prog" where
  "dispatch E a =
     (if command a = ''migrate'' then migrate E (arg_schema a)
      else if command a = ''reset'' then reset E
      else if command a = ''status'' then status E
      else if command a = ''seed'' then seed E
      else if command a = ''cleanup-orphaned-menus'' then
        cleanup_orphaned_menus E (\<not> arg_execute a)
      else thenE (print ''Unknown command: {}'' [S (command a)]) (returnE False))"

definition main :: "env \<Rightarrow> args \<Rightarrow> int prog" where
  "main E a =
     catchE
       (thenE (DatabaseCLI_init E (arg_db_url a))
       (bindE (dispatch E a) (\<lambda>success.
        returnE (if success then 0 else 1))))
       (\<lambda>e. thenE (print ''Error: {}'' [S (str_exn e)]) (returnE 1))"

section \<open>Properties of runs\<close>

subsection \<open>Classifying the log\<close>

fun mutating :: "stmt \<Rightarrow> bool" where
  "mutating (Batch c) = True"
| "mutating (DropTable t) = True"
| "mutating (DropType t) = True"
| "mutating (InsertUser u e h t) = True"
| "mutating (InsertCustomer v n p) = True"
| "mutating (InsertVendor v n p c) = True"
| "mutating (InsertDriver v n p c) = True"
| "mutating (InsertAdmin v n r) = True"
| "mutating DeleteOrphans = True"
| "mutating s = False"

text \<open>A call that neither ends a transaction nor sends a statement that writes.\<close>

fun read_only :: "event \<Rightarrow> bool" where
  "read_only Commit = False"
| "read_only Rollback = False"
| "read_only (Execute s) = (\<not> mutating s)"
| "read_only e = True"

fun is_connect :: "event \<Rightarrow> bool" where
  "is_connect (ConnectCall u) = True"
| "is_connect e = False"

text \<open>
  \<open>ext P w w'\<close>: the log of \<open>w'\<close> is the log of \<open>w\<close> followed by calls that all satisfy
  \<open>P\<close>, the committed database is the same unless one of them is a commit, and a
  connection and a cursor that the object holds are still held.
  \<open>emits P m\<close>: every run of \<open>m\<close> extends the world so.
\<close>

definition ext :: "(event \<Rightarrow> bool) \<Rightarrow> world \<Rightarrow> world \<Rightarrow> bool" where
  "ext P w w' = ((\<exists>evs. trace w' = trace w @ evs \<and> list_all P evs \<and>
     (Commit \<notin> set evs \<longrightarrow> committed w' = committed w)) \<and>
     (conn w \<longrightarrow> conn w') \<and> (cursor w \<longrightarrow> cursor w'))"

definition emits :: "(event \<Rightarrow> bool) \<Rightarrow> 'a prog \<Rightarrow> bool" where
  "emits P m = (\<forall>w. ext P w (snd (m w)))"

subsection \<open>Sample inputs\<close>

definition db0 :: db where
  "db0 = \<lparr>tables = [''users'', ''menus''], enums = [''user_type''],
     version = ''PostgreSQL 16.1'', rows_of = (\<lambda>t. 0), size_of = (\<lambda>t. ''8192 bytes''),
     users = [], customers = [], vendors = [], drivers = [], admins = [],
     menus = [\<lparr>menu_id = 1, menu_name = ''Lunch'', menu_vendor = None, created_at = 5\<rparr>],
     restaurant_menus = []\<rparr>"

definition env0 :: env where
  "env0 = \<lparr>getenv_DATABASE_URL = None, path_exists = (\<lambda>p. True),
     file_text = (\<lambda>p. Some p), script_file = ''/app/tools/cli/cli.py'',
     stdin = Some ''YES'', hashpw = (\<lambda>n pw. pw), batch = (\<lambda>c d. d),
     faults = (\<lambda>n. False), fault_text = (\<lambda>n. ''server closed the connection''),
     file_error = (\<lambda>p. ''[Errno 2] No such file or directory: '' @ quoted p),
     unpack_text = (\<lambda>k n. ''not enough values to unpack'')\<rparr>"

definition args0 :: args where
  "args0 = \<lparr>command = ''status'', arg_db_url = None,
     arg_schema = ''backend/sql/schema.sql'', arg_execute = False\<rparr>"

subsection \<open>Runs that connect\<close>

definition known_command :: "string \<Rightarrow> bool" where
  "known_command c = (c = ''migrate'' \<or> c = ''reset'' \<or> c = ''status'' \<or> c = ''seed'' \<or>
     c = ''cleanup-orphaned-menus'')"

text \<open>
  The runs in which \<^verbatim>\<open>connect()\<close> is reached and returns \<^verbatim>\<open>True\<close>: the command is one of
  the five, \<^verbatim>\<open>migrate\<close> has found its schema file, and neither \<^verbatim>\<open>psycopg2.connect\<close> (engine
  call 0) nor \<^verbatim>\<open>conn.cursor\<close> (engine call 1) raises.
\<close>

definition connected_run :: "env \<Rightarrow> args \<Rightarrow> bool" where
  "connected_run E a = (known_command (command a) \<and>
     (if command a = ''migrate'' then path_exists E (resolve_schema E (arg_schema a))
      else True) \<and>
     \<not> faults E 0 \<and> \<not> faults E 1)"

definition no_disconnect :: "event \<Rightarrow> bool" where
  "no_disconnect e = (e \<noteq> Disconnect)"

text \<open>An environment whose server refuses the connection.\<close>

definition env_down :: env where
  "env_down = env0\<lparr>faults := (\<lambda>n. n = 0)\<rparr>"

subsection \<open>Failure of an SQL file\<close>


text \<open>
  The ways \<^verbatim>\<open>execute_sql_file\<close> fails from a world \<open>w\<close>: the file cannot be opened or
  read, there is no cursor, the engine rejects the batch (the next engine call), or it
  rejects the commit (the call after).
\<close>

definition sql_file_fails :: "env \<Rightarrow> string \<Rightarrow> world \<Rightarrow> bool" where
  "sql_file_fails E p w = (file_text E p = None \<or> \<not> cursor w \<or> faults E (clock w) \<or>
     faults E (Suc (clock w)))"

text \<open>
  The number of the engine call that is the rollback of a failing run of
  \<^verbatim>\<open>execute_sql_file\<close>: the next call when nothing was sent, the one after the rejected
  batch, or the one after the rejected commit.
\<close>

definition rollback_call :: "env \<Rightarrow> string \<Rightarrow> world \<Rightarrow> nat" where
  "rollback_call E p w =
     (if file_text E p = None \<or> \<not> cursor w then clock w
      else if faults E (clock w) then Suc (clock w)
      else Suc (Suc (clock w)))"

text \<open>
  The same for the schema step of a \<^verbatim>\<open>migrate\<close> whose connection and drop step took the
  engine calls 0 to 3.
\<close>

definition schema_rollback_call :: "env \<Rightarrow> string \<Rightarrow> nat" where
  "schema_rollback_call E p =
     (if file_text E (resolve_schema E p) = None then 4
      else if faults E 4 then 5
      else 6)"

text \<open>A server whose session is lost from engine call \<open>k\<close> on; its drop script removes
  every table.\<close>

definition env_lost :: "nat \<Rightarrow> env" where
  "env_lost k = env0\<lparr>batch := (\<lambda>c d. d\<lparr>tables := []\<rparr>), faults := (\<lambda>n. k \<le> n)\<rparr>"

text \<open>
  A file system where the schema file exists and cannot be read, and a drop script that
  removes every table.
\<close>

definition env_unreadable :: env where
  "env_unreadable = env0\<lparr>
     file_text := (\<lambda>p. if p = ''/app/backend/sql/schema.sql'' then None else Some p),
     batch := (\<lambda>c d. d\<lparr>tables := []\<rparr>)\<rparr>"

subsection \<open>Runs of \<^verbatim>\<open>cleanup_orphaned_menus\<close>\<close>

text \<open>A call that neither commits nor sends a statement that writes.\<close>

fun no_write :: "event \<Rightarrow> bool" where
  "no_write Commit = False"
| "no_write (Execute s) = (\<not> mutating s)"
| "no_write e = True"

text \<open>The line printed for an orphaned menu.\<close>

definition report :: "db \<Rightarrow> menu \<Rightarrow> event" where
  "report d m = Print ''ID: {} | {} | {} | Created: {}''
     [I (int (menu_id m)), S (menu_name m),
      (if truthy (vendor_name_of d m) then vendor_name_of d m
       else S ''NO VENDOR (System Menu)''),
      I (created_at m)]"

text \<open>The log of a dry run in which the connection and the query succeed.\<close>

definition dry_run_log :: "string \<Rightarrow> db \<Rightarrow> event list" where
  "dry_run_log url d =
     [Print ''=== Cleaning Up Orphaned Menus ==='' [], ConnectCall url, CursorCall,
      Print ''Connected to database successfully'' [], Execute SelectOrphans] @
     (if orphans d = [] then [Print ''No orphaned menus found. Database is clean!'' []]
      else [Print ''Found {} orphaned menu(s):'' [I (int (length (orphans d)))],
            Print (replicate 80 CHR ''-'') []] @
           map (report d) (orphans d) @
           [Print (replicate 80 CHR ''-'') [],
            Print ''DRY RUN MODE: No changes will be made'' [],
            Print ''  To actually delete orphaned menus, run with --execute flag:'' [],
            Print ''  python cli.py cleanup-orphaned-menus --execute'' []]) @
     [Disconnect, CursorClose, ConnClose, Print ''Database connection closed'' []]"

text \<open>The log of a run that the operator declines at the prompt.\<close>

definition abort_log :: "string \<Rightarrow> db \<Rightarrow> event list" where
  "abort_log url d =
     [Print ''=== Cleaning Up Orphaned Menus ==='' [], ConnectCall url, CursorCall,
      Print ''Connected to database successfully'' [], Execute SelectOrphans,
      Print ''Found {} orphaned menu(s):'' [I (int (length (orphans d)))],
      Print (replicate 80 CHR ''-'') []] @
     map (report d) (orphans d) @
     [Print (replicate 80 CHR ''-'') [],
      Print ''WARNING: This will permanently delete the above menus!'' [],
      Input ''Are you sure you want to continue? (yes/no): '',
      Print ''Cleanup cancelled by user'' [],
      Disconnect, CursorClose, ConnClose, Print ''Database connection closed'' []]"

text \<open>The answers whose lower-casing is \<^verbatim>\<open>yes\<close>.\<close>

definition yes_spellings :: "string list" where
  "yes_spellings = [''yes'', ''yeS'', ''yEs'', ''yES'', ''Yes'', ''YeS'', ''YEs'', ''YES'']"

text \<open>An operator who answers \<^verbatim>\<open>no\<close>.\<close>

definition env_no :: env where
  "env_no = env0\<lparr>stdin := Some ''no''\<rparr>"

subsection \<open>A database with enum types and no table\<close>

definition db_types_only :: db where
  "db_types_only = db0\<lparr>tables := []\<rparr>"

subsection \<open>Runs of \<^verbatim>\<open>seed\<close>\<close>

text \<open>The statements a log sent, in order, and the user names among its \<^verbatim>\<open>users\<close> inserts.\<close>

fun stmt_of :: "event \<Rightarrow> stmt list" where
  "stmt_of (Execute s) = [s]"
| "stmt_of e = []"

definition stmts_of :: "event list \<Rightarrow> stmt list" where
  "stmts_of es = concat (map stmt_of es)"

fun user_of :: "stmt \<Rightarrow> string list" where
  "user_of (InsertUser u m h t) = [u]"
| "user_of s = []"

definition inserted_users :: "event list \<Rightarrow> string list" where
  "inserted_users es = concat (map user_of (stmts_of es))"

text \<open>The database after the engine has accepted the statements \<open>ss\<close> one after another.\<close>

definition apply_stmts :: "env \<Rightarrow> stmt list \<Rightarrow> db \<Rightarrow> db" where
  "apply_stmts E ss d = fold (\<lambda>s d. snd (snd (run_stmt E s d))) ss d"


definition usernames :: "db \<Rightarrow> string set" where
  "usernames d = username ` set (users d)"


text \<open>
  \<open>ran E us w w'\<close>: from \<open>w\<close> to \<open>w'\<close> a part of the batch returned normally. It logged
  neither commit nor rollback, its \<^verbatim>\<open>users\<close> inserts were for the names \<open>us\<close>, the
  transaction sees the database its statements produce, nothing was committed, and the
  names \<open>us\<close> are now in \<^verbatim>\<open>users\<close>.
\<close>

definition ran :: "env \<Rightarrow> string list \<Rightarrow> world \<Rightarrow> world \<Rightarrow> bool" where
  "ran E us w w' = ((\<exists>evs. trace w' = trace w @ evs \<and> Commit \<notin> set evs \<and>
       Rollback \<notin> set evs \<and> inserted_users evs = us \<and>
       working w' = apply_stmts E (stmts_of evs) (working w)) \<and>
     committed w' = committed w \<and> cursor w' \<and> conn w' = conn w \<and>
     usernames (working w) \<union> set us \<subseteq> usernames (working w'))"

definition quiet :: "event \<Rightarrow> bool" where
  "quiet e = (e \<noteq> Commit \<and> e \<noteq> Rollback)"


text \<open>The log of a successful run of \<^verbatim>\<open>seed\<close> before and after its loop.\<close>

definition seed_prefix :: "string \<Rightarrow> event list" where
  "seed_prefix url = [Print ''=== Seeding Database ==='' [], ConnectCall url, CursorCall,
     Print ''Connected to database successfully'' [], Print ''Creating sample users...'' []]"

definition seed_suffix :: "event list" where
  "seed_suffix = [Commit, Print ''Database seeded successfully'' [],
     Print ''Sample credentials:'' [],
     Print ''  Username: customer1, Password: password123 (Customer)'' [],
     Print ''  Username: vendor1,   Password: password123 (Vendor)'' [],
     Print ''  Username: driver1,   Password: password123 (Driver)'' [],
     Print ''  Username: admin1,    Password: password123 (Admin)'' [],
     Disconnect, CursorClose, ConnClose, Print ''Database connection closed'' []]"

text \<open>An engine that rejects the sixth call, an insert in the middle of the batch.\<close>

definition env_reject :: env where
  "env_reject = env0\<lparr>faults := (\<lambda>n. n = 5)\<rparr>"

subsection \<open>Stages of a run\<close>

text \<open>
  The handler of the commands: \<^verbatim>\<open>except Exception as e: self.conn.rollback(); print(...);
  return False\<close>, and the \<^verbatim>\<open>try\<close> statements of \<^verbatim>\<open>seed\<close>, \<^verbatim>\<open>reset\<close> and
  \<^verbatim>\<open>cleanup_orphaned_menus\<close> with it. These are names for terms of the definitions above.
\<close>

abbreviation on_error :: "env \<Rightarrow> string \<Rightarrow> exn \<Rightarrow> bool prog" where
  "on_error E f e \<equiv> thenE (rollback E) (thenE (print f [S (str_exn e)]) (returnE False))"

abbreviation seed_try :: "env \<Rightarrow> bool prog" where
  "seed_try E \<equiv> catchE (seed_body E) (on_error E ''Error seeding database: {}'')"

abbreviation reset_try :: "env \<Rightarrow> bool prog" where
  "reset_try E \<equiv> catchE (reset_body E) (on_error E ''Error resetting database: {}'')"

abbreviation cleanup_try :: "env \<Rightarrow> bool \<Rightarrow> bool prog" where
  "cleanup_try E dr \<equiv>
     catchE (cleanup_body E dr) (on_error E ''Error cleaning up orphaned menus: {}'')"

text \<open>The world of a command with header line \<open>hdr\<close> right after its \<^verbatim>\<open>connect()\<close> succeeded.\<close>

definition connected :: "string \<Rightarrow> string \<Rightarrow> db \<Rightarrow> world" where
  "connected hdr url d = (cli url d)\<lparr>conn := True, cursor := True, clock := 2,
     trace := [Print hdr [], ConnectCall url, CursorCall,
       Print ''Connected to database successfully'' []]\<rparr>"

text \<open>The world of \<^verbatim>\<open>cleanup_orphaned_menus\<close> when the operator has answered the prompt.\<close>

definition prompted :: "world \<Rightarrow> world" where
  "prompted w = w\<lparr>clock := Suc (clock w),
     rowcount := int (length (orphans (working w))), results := [],
     trace := trace w @
       [Execute SelectOrphans,
        Print ''Found {} orphaned menu(s):'' [I (int (length (orphans (working w))))],
        Print (replicate 80 CHR ''-'') []] @
       map (report (working w)) (orphans (working w)) @
       [Print (replicate 80 CHR ''-'') [],
        Print ''WARNING: This will permanently delete the above menus!'' [],
        Input ''Are you sure you want to continue? (yes/no): '']\<rparr>"

section \<open>Proofs\<close>

subsection \<open>How the log grows\<close>

lemma ext_refl: "ext P w w"
  by (simp add: ext_def)

lemma ext_trans: "ext P w w' \<Longrightarrow> ext P w' w'' \<Longrightarrow> ext P w w''"
  unfolding ext_def by (elim exE conjE, intro conjI, rule_tac x = "evs @ evsa" in exI) auto

lemma ext_emit: "P e \<Longrightarrow> e \<noteq> Commit \<Longrightarrow> ext P w (emit e w)"
  by (simp add: ext_def emit_def)

lemma emitsD: "emits P m \<Longrightarrow> m w = (r, w') \<Longrightarrow> ext P w w'"
  unfolding emits_def by (metis snd_conv)

lemma emits_returnE: "emits P (returnE x)"
  by (simp add: emits_def returnE_def ext_refl)

lemma emits_raiseE: "emits P (raiseE x)"
  by (simp add: emits_def raiseE_def ext_refl)

lemma emits_getsE: "emits P (getsE f)"
  by (simp add: emits_def getsE_def ext_refl)

lemma emits_bindE: "emits P m \<Longrightarrow> (\<And>x. emits P (k x)) \<Longrightarrow> emits P (bindE m k)"
  unfolding emits_def bindE_def
  by (auto split: prod.splits sum.splits dest: ext_trans) (metis ext_trans snd_conv)+

lemma emits_thenE: "emits P m \<Longrightarrow> emits P n \<Longrightarrow> emits P (thenE m n)"
  by (simp add: thenE_def emits_bindE)

lemma emits_catchE: "emits P m \<Longrightarrow> (\<And>e. emits P (h e)) \<Longrightarrow> emits P (catchE m h)"
  unfolding emits_def catchE_def
  by (auto split: prod.splits sum.splits) (metis ext_trans snd_conv)+

lemma emits_finallyE: "emits P m \<Longrightarrow> emits P fin \<Longrightarrow> emits P (finallyE m fin)"
  unfolding emits_def finallyE_def
  by (auto split: prod.splits sum.splits) (metis ext_trans snd_conv)+

lemma emits_forE: "(\<And>x. emits P (body x)) \<Longrightarrow> emits P (forE xs body)"
  by (induction xs) (simp_all add: emits_returnE emits_bindE)

lemma emits_if:
  "(c \<Longrightarrow> emits P m) \<Longrightarrow> (\<not> c \<Longrightarrow> emits P n) \<Longrightarrow> emits P (if c then m else n)"
  by simp

lemma emits_whenE: "emits P m \<Longrightarrow> emits P (whenE c m)"
  by (simp add: whenE_def emits_returnE)

lemma emits_print: "P (Print f a) \<Longrightarrow> emits P (print f a)"
  by (simp add: emits_def print_def ext_emit)

lemma emits_execute: "P (Execute s) \<Longrightarrow> emits P (execute E s)"
  by (simp add: emits_def execute_def Let_def ext_def emit_def tick_def split: prod.splits)

lemma emits_commit: "P Commit \<Longrightarrow> emits P (commit E)"
  by (simp add: emits_def commit_def Let_def ext_def emit_def tick_def)

lemma emits_rollback: "P Rollback \<Longrightarrow> emits P (rollback E)"
  by (simp add: emits_def rollback_def Let_def ext_def emit_def tick_def)

lemma emits_fetchall: "emits P fetchall"
  by (simp add: emits_def fetchall_def ext_def)

lemma emits_fetchone: "emits P fetchone"
  by (simp add: emits_def fetchone_def ext_def split: list.splits)

lemma emits_item: "emits P (item r i)"
  by (simp add: item_def emits_returnE emits_raiseE)

lemma emits_item_opt: "emits P (item_opt r i)"
  by (simp add: item_opt_def emits_item emits_raiseE split: option.splits)

lemma emits_sql_Identifier: "emits P (sql_Identifier v)"
  by (simp add: sql_Identifier_def emits_returnE emits_raiseE split: val.splits)

lemma emits_unpack2: "emits P (unpack2 E r)"
  by (simp add: unpack2_def emits_returnE emits_raiseE split: list.splits)

lemma emits_unpack5: "emits P (unpack5 E r)"
  by (simp add: unpack5_def emits_returnE emits_raiseE split: list.splits)

lemma emits_connect:
  "(\<And>u. P (ConnectCall u)) \<Longrightarrow> P CursorCall \<Longrightarrow> (\<And>f a. P (Print f a)) \<Longrightarrow>
   emits P (connect E)"
  unfolding connect_def
  apply (intro emits_catchE emits_thenE emits_print emits_returnE)
  apply (simp_all add: emits_def psycopg2_connect_def conn_cursor_def Let_def ext_def
      emit_def tick_def)
  done

lemma emits_disconnect:
  "P Disconnect \<Longrightarrow> P CursorClose \<Longrightarrow> P ConnClose \<Longrightarrow> (\<And>f a. P (Print f a)) \<Longrightarrow>
   emits P disconnect"
  unfolding disconnect_def
  apply (intro emits_thenE emits_bindE emits_getsE emits_whenE emits_print)
  apply (simp_all add: emits_def cursor_close_def conn_close_def ext_def emit_def)
  done

lemmas emits_intros = emits_returnE emits_raiseE emits_getsE emits_bindE emits_thenE
  emits_catchE emits_finallyE emits_forE emits_whenE emits_print emits_execute
  emits_commit emits_rollback emits_fetchall emits_fetchone emits_item emits_item_opt
  emits_sql_Identifier emits_unpack2 emits_unpack5 emits_connect emits_disconnect

subsection \<open>\<^verbatim>\<open>status\<close> only reads\<close>

lemma emits_status: "emits read_only (status E)"
  unfolding status_def status_body_def status_table_def
  by (intro emits_intros emits_if allI impI) (simp_all add: emits_intros split: prod.splits)

text \<open>
  C9. \<^verbatim>\<open>status\<close> is read-only. Whatever the database, the connection string and the
  calls at which the engine raises, the log of a run of \<^verbatim>\<open>status\<close> holds no call of
  \<^verbatim>\<open>commit\<close>, no call of \<^verbatim>\<open>rollback\<close> and no statement other than a \<^verbatim>\<open>SELECT\<close>, and the
  committed database is what it was.
\<close>

theorem status_read_only:
  "list_all read_only (trace (snd (status E (cli url d)))) \<and>
   committed (snd (status E (cli url d))) = d"
proof -
  have "ext read_only (cli url d) (snd (status E (cli url d)))"
    using emits_status by (simp add: emits_def)
  then show ?thesis
    by (auto simp: ext_def cli_def fresh_def list_all_iff)
qed

subsection \<open>No connection string\<close>

text \<open>
  C8. When neither \<^verbatim>\<open>--db-url\<close> nor \<^verbatim>\<open>DATABASE_URL\<close> gives a connection string, \<^verbatim>\<open>main\<close>
  exits with code 1; all it has done is print the error of the constructor, so no
  connection was attempted and the database is untouched.
\<close>

theorem main_without_url:
  assumes "arg_db_url a = None" and "getenv_DATABASE_URL E = None"
  shows "fst (main E a (fresh d)) = Inr 1 \<and>
    trace (snd (main E a (fresh d))) =
      [Print ''Error: {}'' [S ''DATABASE_URL environment variable is required'']] \<and>
    \<not> list_ex is_connect (trace (snd (main E a (fresh d)))) \<and>
    committed (snd (main E a (fresh d))) = d"
  using assms
  by (simp add: main_def catchE_def thenE_def bindE_def DatabaseCLI_init_def print_def
      returnE_def emit_def fresh_def)

theorem main_without_url_witness:
  "arg_db_url args0 = None \<and> getenv_DATABASE_URL env0 = None \<and>
   fst (main env0 args0 (fresh db0)) = Inr 1 \<and>
   \<not> list_ex is_connect (trace (snd (main env0 args0 (fresh db0))))"
proof -
  have a: "arg_db_url args0 = None" by (simp add: args0_def)
  have b: "getenv_DATABASE_URL env0 = None" by (simp add: env0_def)
  show ?thesis using a b main_without_url [OF a b, of db0] by simp
qed

subsection \<open>Unfolding a run\<close>

lemmas run_defs = returnE_def raiseE_def bindE_def thenE_def catchE_def finallyE_def
  getsE_def whenE_def print_def emit_def tick_def psycopg2_connect_def conn_cursor_def
  execute_def fetchall_def fetchone_def commit_def rollback_def cursor_close_def
  conn_close_def read_file_def input_def bcrypt_hashpw_def connect_def disconnect_def
  item_def item_opt_def sql_Identifier_def unpack2_def unpack5_def cli_def fresh_def Let_def

subsection \<open>Stages of a run, computed\<close>

lemma connect_ok:
  assumes "\<not> faults E (clock w)" and "\<not> faults E (Suc (clock w))"
  shows "connect E w = (Inr True,
    w\<lparr>working := committed w, conn := True, cursor := True, results := [],
      clock := Suc (Suc (clock w)),
      trace := trace w @ [ConnectCall (db_url w), CursorCall,
        Print ''Connected to database successfully'' []]\<rparr>)"
  using assms by (simp add: run_defs)

lemma sql_file_ok:
  assumes "cursor w" and "conn w" and "file_text E p = Some c"
    and "\<not> faults E (clock w)" and "\<not> faults E (Suc (clock w))"
  shows "execute_sql_file E p w = (Inr True,
    w\<lparr>committed := batch E c (working w), working := batch E c (working w), results := [],
      rowcount := - 1, clock := Suc (Suc (clock w)),
      trace := trace w @ [OpenFile p, Execute (Batch c), Commit,
        Print ''Successfully executed SQL file: {}'' [S p]]\<rparr>)"
  using assms by (simp add: execute_sql_file_def run_defs)

lemma command_connected:
  assumes "\<not> faults E 0" and "\<not> faults E (Suc 0)"
  shows "thenE (print hdr []) (bindE (connect E) (\<lambda>ok.
      if \<not> ok then returnE False else G)) (cli url d) = G (connected hdr url d)"
  using assms by (simp add: connected_def run_defs numeral_eq_Suc)

lemma command_not_connected:
  assumes "faults E 0 \<or> faults E (Suc 0)"
  shows "fst (thenE (print hdr []) (bindE (connect E) (\<lambda>ok.
      if \<not> ok then returnE False else G)) (cli url d)) = Inr False \<and>
    committed (snd (thenE (print hdr []) (bindE (connect E) (\<lambda>ok.
      if \<not> ok then returnE False else G)) (cli url d))) = d \<and>
    list_all (\<lambda>e. e \<noteq> Commit \<and> e \<noteq> Rollback \<and> stmt_of e = [])
      (trace (snd (thenE (print hdr []) (bindE (connect E) (\<lambda>ok.
      if \<not> ok then returnE False else G)) (cli url d))))"
  by (cases "faults E 0") (use assms in \<open>simp_all add: run_defs\<close>)

lemma connected_facts:
  "conn (connected hdr url d)" "cursor (connected hdr url d)"
  "committed (connected hdr url d) = d" "working (connected hdr url d) = d"
  "clock (connected hdr url d) = 2"
  "trace (connected hdr url d) = [Print hdr [], ConnectCall url, CursorCall,
       Print ''Connected to database successfully'' []]"
  by (simp_all add: connected_def cli_def fresh_def)

lemma handler_not_True:
  "fst (thenE (rollback E) (thenE (print f a) (returnE False)) w) \<noteq> Inr True"
  by (simp add: run_defs)

lemma disconnect_run:
  "disconnect w = (Inr (), emit (Print ''Database connection closed'' [])
     (if conn w
      then (emit ConnClose (if cursor w then emit CursorClose (emit Disconnect w)
              else emit Disconnect w))\<lparr>working := committed w\<rparr>
      else (if cursor w then emit CursorClose (emit Disconnect w) else emit Disconnect w)))"
  by (simp add: run_defs)

lemma finally_disconnect_run:
  "finallyE m disconnect w = (fst (m w), snd (disconnect (snd (m w))))"
  by (cases "m w") (simp add: finallyE_def disconnect_run)

lemma disconnect_open:
  assumes "conn w" and "cursor w"
  shows "snd (disconnect w) = w\<lparr>working := committed w,
    trace := trace w @ [Disconnect, CursorClose, ConnClose, Print ''Database connection closed'' []]\<rparr>"
  using assms by (simp add: disconnect_run emit_def)

subsection \<open>\<^verbatim>\<open>disconnect\<close> is called once after a connection\<close>

lemma ext_count:
  "ext no_disconnect w w' \<Longrightarrow>
   count_list (trace w') Disconnect = count_list (trace w) Disconnect"
  by (auto simp: ext_def no_disconnect_def list_all_iff count_list_0_iff)

lemma connect_result:
  "fst (connect E w) = Inr (\<not> faults E (clock w) \<and> \<not> faults E (Suc (clock w)))"
  by (simp add: run_defs)

lemma connect_True: "connect E w = (Inr True, w') \<Longrightarrow> conn w' \<and> cursor w'"
  by (auto simp: run_defs split: if_splits)

lemma emits_connect_nd: "emits no_disconnect (connect E)"
  by (rule emits_connect) (simp_all add: no_disconnect_def)

lemma disconnect_result:
  "fst (disconnect w) = Inr () \<and>
   count_list (trace (snd (disconnect w))) Disconnect = Suc (count_list (trace w) Disconnect)"
  by (simp add: run_defs)

lemma finally_disconnect:
  assumes "emits no_disconnect body"
  shows "count_list (trace (snd (finallyE body disconnect w))) Disconnect =
    Suc (count_list (trace w) Disconnect)"
proof -
  obtain r w' where b: "body w = (r, w')" by (cases "body w")
  from emitsD [OF assms b] have "count_list (trace w') Disconnect = count_list (trace w) Disconnect"
    by (rule ext_count)
  moreover obtain u w'' where d: "disconnect w' = (u, w'')" by (cases "disconnect w'")
  moreover from d disconnect_result [of w'] have "u = Inr ()"
    and "count_list (trace w'') Disconnect = Suc (count_list (trace w') Disconnect)" by simp_all
  ultimately show ?thesis using b by (simp add: finallyE_def)
qed

lemma command_skeleton:
  assumes "emits no_disconnect body"
  shows "count_list (trace (snd (thenE (print f a) (bindE (connect E) (\<lambda>ok.
      if \<not> ok then returnE False else finallyE body disconnect)) w))) Disconnect =
    count_list (trace w) Disconnect +
      (if \<not> faults E (clock w) \<and> \<not> faults E (Suc (clock w)) then 1 else 0)"
proof -
  let ?w0 = "emit (Print f a) w"
  obtain ok w1 where c: "connect E ?w0 = (Inr ok, w1)"
    using connect_result [of E ?w0] by (cases "connect E ?w0") auto
  have ok: "ok = (\<not> faults E (clock w) \<and> \<not> faults E (Suc (clock w)))"
    using connect_result [of E ?w0] c by (simp add: emit_def)
  have c1: "count_list (trace w1) Disconnect = count_list (trace w) Disconnect"
    using ext_count [OF emitsD [OF emits_connect_nd c]] by (simp add: emit_def)
  show ?thesis
  proof (cases ok)
    case True
    then show ?thesis using c ok c1 finally_disconnect [OF assms, of w1]
      by (simp add: thenE_def bindE_def print_def)
  next
    case False
    then show ?thesis using c ok c1
      by (auto simp add: thenE_def bindE_def print_def returnE_def)
  qed
qed

lemma emits_read_file: "P (OpenFile p) \<Longrightarrow> emits P (read_file E p)"
  by (simp add: emits_def read_file_def Let_def ext_def emit_def split: option.splits)

lemma emits_input: "P (Input p) \<Longrightarrow> emits P (input E p)"
  by (simp add: emits_def input_def Let_def ext_def emit_def split: option.splits)

lemma emits_bcrypt_hashpw: "emits P (bcrypt_hashpw E p)"
  by (simp add: emits_def bcrypt_hashpw_def ext_def)

lemmas emits_all = emits_intros emits_read_file emits_input emits_bcrypt_hashpw emits_if

lemma emits_execute_sql_file_nd: "emits no_disconnect (execute_sql_file E p)"
  unfolding execute_sql_file_def
  by (intro emits_all) (simp_all add: no_disconnect_def)

lemma emits_migrate_body_nd: "emits no_disconnect (migrate_body E p q)"
  unfolding migrate_body_def migrate_schema_def
  by (intro emits_all emits_execute_sql_file_nd) (simp_all add: no_disconnect_def)

lemma emits_reset_body_nd: "emits no_disconnect (reset_body E)"
  unfolding reset_body_def drop_table_def drop_type_def
  by (intro emits_all) (simp_all add: no_disconnect_def)

lemma emits_status_body_nd: "emits no_disconnect (status_body E)"
  unfolding status_body_def status_table_def
  by (intro emits_all allI impI) (simp_all add: emits_all no_disconnect_def split: prod.splits)

lemma emits_seed_body_nd: "emits no_disconnect (seed_body E)"
  unfolding seed_body_def seed_user_def seed_profile_def
  by (intro emits_all allI impI) (simp_all add: emits_all no_disconnect_def split: prod.splits)

lemma emits_cleanup_body_nd: "emits no_disconnect (cleanup_body E dr)"
  unfolding cleanup_body_def cleanup_delete_def show_orphan_def
  by (intro emits_all allI impI) (simp_all add: emits_all no_disconnect_def Let_def split: prod.splits)

lemma emits_handler_nd:
  "emits no_disconnect body \<Longrightarrow>
   emits no_disconnect (catchE body (\<lambda>e. thenE (rollback E) (thenE (print f (g e)) (returnE False))))"
  by (intro emits_all) (simp_all add: no_disconnect_def)

lemma count_migrate:
  "count_list (trace (snd (migrate E p w))) Disconnect = count_list (trace w) Disconnect +
     (if path_exists E (resolve_schema E p) \<and> \<not> faults E (clock w) \<and> \<not> faults E (Suc (clock w))
      then 1 else 0)"
proof (cases "path_exists E (resolve_schema E p)")
  case True
  have "migrate E p = thenE (print ''=== Running Database Migrations ==='' [])
     (bindE (connect E) (\<lambda>ok. if \<not> ok then returnE False
        else finallyE (migrate_body E (resolve_schema E p)
          (join (dirname (resolve_schema E p)) ''drop_all.sql'')) disconnect))"
    using True by (simp add: migrate_def Let_def)
  then show ?thesis using True command_skeleton [OF emits_migrate_body_nd] by simp
next
  case False
  then show ?thesis
    by (simp add: migrate_def Let_def thenE_def bindE_def print_def returnE_def emit_def)
qed

lemma count_reset:
  "count_list (trace (snd (reset E w))) Disconnect = count_list (trace w) Disconnect +
     (if \<not> faults E (clock w) \<and> \<not> faults E (Suc (clock w)) then 1 else 0)"
  unfolding reset_def
  by (rule command_skeleton [OF emits_handler_nd [OF emits_reset_body_nd]])

lemma count_status:
  "count_list (trace (snd (status E w))) Disconnect = count_list (trace w) Disconnect +
     (if \<not> faults E (clock w) \<and> \<not> faults E (Suc (clock w)) then 1 else 0)"
  unfolding status_def
  by (rule command_skeleton, intro emits_all emits_status_body_nd) (simp add: no_disconnect_def)

lemma count_seed:
  "count_list (trace (snd (seed E w))) Disconnect = count_list (trace w) Disconnect +
     (if \<not> faults E (clock w) \<and> \<not> faults E (Suc (clock w)) then 1 else 0)"
  unfolding seed_def
  by (rule command_skeleton [OF emits_handler_nd [OF emits_seed_body_nd]])

lemma count_cleanup:
  "count_list (trace (snd (cleanup_orphaned_menus E dr w))) Disconnect =
     count_list (trace w) Disconnect +
     (if \<not> faults E (clock w) \<and> \<not> faults E (Suc (clock w)) then 1 else 0)"
  unfolding cleanup_orphaned_menus_def
  by (rule command_skeleton [OF emits_handler_nd [OF emits_cleanup_body_nd]])

lemma skeleton_not_connected:
  assumes "faults E (clock w) \<or> faults E (Suc (clock w))"
  shows "fst (thenE (print f a) (bindE (connect E) (\<lambda>ok.
      if \<not> ok then returnE False else G)) w) = Inr False"
proof -
  let ?w0 = "emit (Print f a) w"
  obtain ok w1 where c: "connect E ?w0 = (Inr ok, w1)"
    using connect_result [of E ?w0] by (cases "connect E ?w0") auto
  have "\<not> ok"
    using connect_result [of E ?w0] c assms by (auto simp: emit_def)
  then show ?thesis using c by (simp add: thenE_def bindE_def print_def returnE_def)
qed

lemma migrate_not_connected:
  assumes "\<not> path_exists E (resolve_schema E p) \<or> faults E (clock w) \<or>
    faults E (Suc (clock w))"
  shows "fst (migrate E p w) = Inr False"
proof (cases "path_exists E (resolve_schema E p)")
  case True
  have "migrate E p = thenE (print ''=== Running Database Migrations ==='' [])
     (bindE (connect E) (\<lambda>ok. if \<not> ok then returnE False
        else finallyE (migrate_body E (resolve_schema E p)
          (join (dirname (resolve_schema E p)) ''drop_all.sql'')) disconnect))"
    using True by (simp add: migrate_def Let_def)
  then show ?thesis using True assms skeleton_not_connected [of E w] by simp
next
  case False
  then show ?thesis
    by (simp add: migrate_def Let_def thenE_def bindE_def print_def returnE_def)
qed

lemma not_connected_False:
  assumes "\<not> connected_run E a"
  shows "fst (dispatch E a (cli url d)) = Inr False"
proof -
  have c: "clock (cli url d) = 0" by (simp add: cli_def fresh_def)
  consider "\<not> known_command (command a)"
    | "command a = ''migrate''" "\<not> path_exists E (resolve_schema E (arg_schema a)) \<or>
        faults E 0 \<or> faults E (Suc 0)"
    | "command a \<noteq> ''migrate''" "known_command (command a)" "faults E 0 \<or> faults E (Suc 0)"
    using assms by (auto simp: connected_run_def split: if_splits)
  then show ?thesis
  proof cases
    case 1
    then show ?thesis
      by (simp add: dispatch_def known_command_def thenE_def bindE_def print_def returnE_def)
  next
    case 2
    then show ?thesis
      using migrate_not_connected [of E "arg_schema a" "cli url d"] c
      by (simp add: dispatch_def)
  next
    case 3
    then show ?thesis
      using skeleton_not_connected [of E "cli url d"] c
      by (auto simp: dispatch_def known_command_def reset_def status_def seed_def
          cleanup_orphaned_menus_def)
  qed
qed

text \<open>
  C3, as the code has it. In every run of a command in which \<^verbatim>\<open>connect()\<close> returned
  \<^verbatim>\<open>True\<close>, \<^verbatim>\<open>disconnect()\<close> is called exactly once, whatever the engine raises
  afterwards, also when the rollback of a handler raises and the command ends with that
  exception. In every other run (the connection failed, \<^verbatim>\<open>migrate\<close> found no schema
  file) \<^verbatim>\<open>disconnect()\<close> is not called at all and the command returns \<^verbatim>\<open>False\<close>.
\<close>

theorem disconnect_once_when_connected:
  "count_list (trace (snd (dispatch E a (cli url d)))) Disconnect =
     (if connected_run E a then 1 else 0) \<and>
   (\<not> connected_run E a \<longrightarrow> fst (dispatch E a (cli url d)) = Inr False)"
proof -
  have "count_list (trace (snd (dispatch E a (cli url d)))) Disconnect =
     (if connected_run E a then 1 else 0)"
    by (simp add: dispatch_def connected_run_def known_command_def count_migrate count_reset
        count_status count_seed count_cleanup thenE_def bindE_def print_def returnE_def emit_def)
      (simp add: cli_def fresh_def)
  then show ?thesis using not_connected_False by simp
qed

theorem disconnect_once_when_connected_witness:
  "connected_run env0 args0 \<and>
   count_list (trace (snd (dispatch env0 args0 (cli ''postgres://db'' db0)))) Disconnect = 1 \<and>
   \<not> connected_run env_down args0 \<and>
   count_list (trace (snd (dispatch env_down args0 (cli ''postgres://db'' db0)))) Disconnect = 0 \<and>
   fst (dispatch env_down args0 (cli ''postgres://db'' db0)) = Inr False"
proof -
  have c: "connected_run env0 args0"
    by (simp add: connected_run_def known_command_def env0_def args0_def)
  have n: "\<not> connected_run env_down args0"
    by (simp add: connected_run_def env_down_def env0_def)
  show ?thesis
    using c n disconnect_once_when_connected [of env0 args0 "''postgres://db''" db0]
      disconnect_once_when_connected [of env_down args0 "''postgres://db''" db0]
    by simp
qed

text \<open>
  C3, as stated, fails: when the server refuses the connection, \<^verbatim>\<open>reset\<close> returns
  \<^verbatim>\<open>False\<close> from the guard before its \<^verbatim>\<open>try\<close> and \<^verbatim>\<open>disconnect()\<close> is never called.
\<close>

theorem disconnect_skipped_counterexample:
  "fst (reset env_down (cli ''postgres://db'' db0)) = Inr False \<and>
   count_list (trace (snd (reset env_down (cli ''postgres://db'' db0)))) Disconnect = 0"
  by (simp add: reset_def run_defs env_down_def env0_def db0_def)

subsection \<open>\<^verbatim>\<open>execute_sql_file\<close> and \<^verbatim>\<open>migrate\<close>\<close>


lemma sql_file_failed:
  assumes "conn w" and "sql_file_fails E p w"
  shows "fst (execute_sql_file E p w) =
      (if faults E (rollback_call E p w)
       then Inl (Psycopg2Error (fault_text E (rollback_call E p w))) else Inr False) \<and>
    committed (snd (execute_sql_file E p w)) = committed w \<and>
    (\<exists>evs. trace (snd (execute_sql_file E p w)) = trace w @ evs \<and> Rollback \<in> set evs \<and>
       Disconnect \<notin> set evs) \<and>
    conn (snd (execute_sql_file E p w)) \<and>
    cursor (snd (execute_sql_file E p w)) = cursor w"
proof -
  note defs = execute_sql_file_def rollback_call_def run_defs
  show ?thesis
  proof (cases "file_text E p")
    case None
    show ?thesis
      by (cases "faults E (clock w)") (use assms None in \<open>simp_all add: defs\<close>)
  next
    case (Some c)
    show ?thesis
    proof (cases "cursor w")
      case False
      show ?thesis
        by (cases "faults E (clock w)") (use assms Some False in \<open>simp_all add: defs\<close>)
    next
      case True
      show ?thesis
      proof (cases "faults E (clock w)")
        case f: True
        show ?thesis
          by (cases "faults E (Suc (clock w))") (use assms Some True f in \<open>simp_all add: defs\<close>)
      next
        case f: False
        with assms Some True have g: "faults E (Suc (clock w))" by (simp add: sql_file_fails_def)
        show ?thesis
          by (cases "faults E (Suc (Suc (clock w)))")
            (use assms Some True f g in \<open>simp_all add: defs\<close>)
      qed
    qed
  qed
qed

lemma migrate_body_keeps_drop:
  assumes "conn w" and "cursor w" and "path_exists E dp" and "file_text E dp = Some c"
    and "\<not> faults E (clock w)" and "\<not> faults E (Suc (clock w))"
    and "file_text E sp = None \<or> faults E (Suc (Suc (clock w))) \<or>
      faults E (Suc (Suc (Suc (clock w))))"
  shows "committed (snd (migrate_body E sp dp w)) = batch E c (working w) \<and>
    (\<exists>evs. trace (snd (migrate_body E sp dp w)) =
       trace w @ [Print ''Step 1: Dropping all existing tables and objects...'' [],
         OpenFile dp, Execute (Batch c), Commit] @ evs \<and> Rollback \<in> set evs) \<and>
    fst (migrate_body E sp dp w) =
      (if faults E (if file_text E sp = None then Suc (Suc (clock w))
                    else if faults E (Suc (Suc (clock w))) then Suc (Suc (Suc (clock w)))
                    else Suc (Suc (Suc (Suc (clock w)))))
       then Inl (Psycopg2Error (fault_text E
         (if file_text E sp = None then Suc (Suc (clock w))
          else if faults E (Suc (Suc (clock w))) then Suc (Suc (Suc (clock w)))
          else Suc (Suc (Suc (Suc (clock w)))))))
       else Inr False) \<and>
    conn (snd (migrate_body E sp dp w)) \<and> cursor (snd (migrate_body E sp dp w))"
proof -
  let ?w1 = "emit (Print ''Step 1: Dropping all existing tables and objects...'' []) w"
  have ok: "execute_sql_file E dp ?w1 = (Inr True,
    ?w1\<lparr>committed := batch E c (working ?w1), working := batch E c (working ?w1), results := [],
      rowcount := - 1, clock := Suc (Suc (clock ?w1)),
      trace := trace ?w1 @ [OpenFile dp, Execute (Batch c), Commit,
        Print ''Successfully executed SQL file: {}'' [S dp]]\<rparr>)"
    by (rule sql_file_ok) (use assms in \<open>simp_all add: emit_def\<close>)
  let ?w2 = "emit (Print ''Step 2: Creating tables and objects from schema...'' [])
    (snd (execute_sql_file E dp ?w1))"
  have w2: "conn ?w2" "cursor ?w2" "clock ?w2 = Suc (Suc (clock w))"
    "committed ?w2 = batch E c (working w)"
    "trace ?w2 = trace w @ [Print ''Step 1: Dropping all existing tables and objects...'' [],
       OpenFile dp, Execute (Batch c), Commit,
       Print ''Successfully executed SQL file: {}'' [S dp],
       Print ''Step 2: Creating tables and objects from schema...'' []]"
    using assms(1,2) unfolding ok by (simp_all add: emit_def)
  have fails: "sql_file_fails E sp ?w2"
    using assms(7) w2 by (simp add: sql_file_fails_def)
  have rc: "rollback_call E sp ?w2 =
      (if file_text E sp = None then Suc (Suc (clock w))
       else if faults E (Suc (Suc (clock w))) then Suc (Suc (Suc (clock w)))
       else Suc (Suc (Suc (Suc (clock w)))))"
    using w2 by (simp add: rollback_call_def)
  obtain r w3 where s: "execute_sql_file E sp ?w2 = (r, w3)"
    by (cases "execute_sql_file E sp ?w2")
  from sql_file_failed [OF w2(1) fails] s rc obtain evs where
    f: "r = (if faults E (if file_text E sp = None then Suc (Suc (clock w))
                    else if faults E (Suc (Suc (clock w))) then Suc (Suc (Suc (clock w)))
                    else Suc (Suc (Suc (Suc (clock w)))))
       then Inl (Psycopg2Error (fault_text E
         (if file_text E sp = None then Suc (Suc (clock w))
          else if faults E (Suc (Suc (clock w))) then Suc (Suc (Suc (clock w)))
          else Suc (Suc (Suc (Suc (clock w)))))))
       else Inr False)"
      "committed w3 = committed ?w2" "trace w3 = trace ?w2 @ evs" "Rollback \<in> set evs"
      "conn w3" "cursor w3 = cursor ?w2"
    by auto
  have m: "migrate_body E sp dp w =
      (case r of Inl e \<Rightarrow> (Inl e, w3)
       | Inr b \<Rightarrow> (Inr b, emit (Print (if b then ''Migration completed successfully''
           else ''Migration failed'') []) w3))"
    using assms(3) s
    by (cases r) (simp_all add: migrate_body_def migrate_schema_def thenE_def bindE_def
        print_def returnE_def ok)
  show ?thesis
    using f w2 unfolding m
    by (cases "faults E (if file_text E sp = None then Suc (Suc (clock w))
                    else if faults E (Suc (Suc (clock w))) then Suc (Suc (Suc (clock w)))
                    else Suc (Suc (Suc (Suc (clock w)))))") (simp_all add: emit_def)
qed

lemma migrate_connected:
  assumes "path_exists E (resolve_schema E p)" and "\<not> faults E 0" and "\<not> faults E (Suc 0)"
  shows "migrate E p (cli url d) =
    (fst (migrate_body E (resolve_schema E p)
       (join (dirname (resolve_schema E p)) ''drop_all.sql'')
       (connected ''=== Running Database Migrations ==='' url d)),
     snd (disconnect (snd (migrate_body E (resolve_schema E p)
       (join (dirname (resolve_schema E p)) ''drop_all.sql'')
       (connected ''=== Running Database Migrations ==='' url d)))))"
proof -
  have "migrate E p = thenE (print ''=== Running Database Migrations ==='' [])
     (bindE (connect E) (\<lambda>ok. if \<not> ok then returnE False
        else finallyE (migrate_body E (resolve_schema E p)
          (join (dirname (resolve_schema E p)) ''drop_all.sql'')) disconnect))"
    using assms(1) by (simp add: migrate_def Let_def)
  then show ?thesis
    by (simp only: command_connected [OF assms(2,3)] finally_disconnect_run)
qed

lemma migrate_outcome:
  assumes "path_exists E (resolve_schema E p)"
    and "path_exists E (join (dirname (resolve_schema E p)) ''drop_all.sql'')"
    and "file_text E (join (dirname (resolve_schema E p)) ''drop_all.sql'') = Some c"
    and "\<not> faults E 0" and "\<not> faults E 1" and "\<not> faults E 2" and "\<not> faults E 3"
    and "file_text E (resolve_schema E p) = None \<or> faults E 4 \<or> faults E 5"
  shows "committed (snd (migrate E p (cli url d))) = batch E c d \<and>
    Rollback \<in> set (trace (snd (migrate E p (cli url d)))) \<and>
    take 8 (trace (snd (migrate E p (cli url d)))) =
      [Print ''=== Running Database Migrations ==='' [], ConnectCall url, CursorCall,
       Print ''Connected to database successfully'' [],
       Print ''Step 1: Dropping all existing tables and objects...'' [],
       OpenFile (join (dirname (resolve_schema E p)) ''drop_all.sql''),
       Execute (Batch c), Commit] \<and>
    fst (migrate E p (cli url d)) =
      (if faults E (schema_rollback_call E p)
       then Inl (Psycopg2Error (fault_text E (schema_rollback_call E p)))
       else Inr False) \<and>
    fst (migrate E p (cli url d)) \<noteq> Inr True"
proof -
  let ?W = "connected ''=== Running Database Migrations ==='' url d"
  let ?sp = "resolve_schema E p"
  let ?dp = "join (dirname (resolve_schema E p)) ''drop_all.sql''"
  have f: "\<not> faults E 0" "\<not> faults E (Suc 0)" using assms by simp_all
  have a: "\<not> faults E (clock ?W)" "\<not> faults E (Suc (clock ?W))"
    "file_text E ?sp = None \<or> faults E (Suc (Suc (clock ?W))) \<or>
      faults E (Suc (Suc (Suc (clock ?W))))"
    using assms by (simp_all add: connected_facts numeral_eq_Suc)
  from migrate_body_keeps_drop [OF connected_facts(1,2) assms(2,3) a]
  obtain evs where
    b: "committed (snd (migrate_body E ?sp ?dp ?W)) = batch E c d"
      "trace (snd (migrate_body E ?sp ?dp ?W)) = trace ?W @
         [Print ''Step 1: Dropping all existing tables and objects...'' [],
          OpenFile ?dp, Execute (Batch c), Commit] @ evs"
      "Rollback \<in> set evs"
      "fst (migrate_body E ?sp ?dp ?W) =
        (if faults E (schema_rollback_call E p)
         then Inl (Psycopg2Error (fault_text E (schema_rollback_call E p)))
         else Inr False)"
    by (auto simp: connected_facts schema_rollback_call_def numeral_eq_Suc)
  show ?thesis
    using b by (simp add: migrate_connected [OF assms(1) f] disconnect_run emit_def
        connected_facts)
qed

lemma sample_paths:
  "resolve_schema (env_lost k) ''backend/sql/schema.sql'' = ''/app/backend/sql/schema.sql''"
  "resolve_schema env_unreadable ''backend/sql/schema.sql'' = ''/app/backend/sql/schema.sql''"
  "join (dirname ''/app/backend/sql/schema.sql'') ''drop_all.sql'' =
     ''/app/backend/sql/drop_all.sql''"
  by (simp_all add: resolve_schema_def isabs_def dirname_def join_def env_lost_def
      env_unreadable_def env0_def)




text \<open>
  C6, as the code has it. \<^verbatim>\<open>migrate\<close> runs each file in its own transaction. When the
  schema file and the drop script exist, the connection is made, and the drop script is
  read, accepted and committed (engine calls 0 to 3 do not raise), then a failure of the
  schema step (its file cannot be read, or the engine rejects its batch, call 4, or its
  commit, call 5) is followed by a rollback, and the committed database is the one the
  drop script produced: the rollback has not undone the drop. The log begins with the
  drop step up to its own commit. \<^verbatim>\<open>migrate\<close> returns \<^verbatim>\<open>False\<close> when that rollback returns
  normally and ends with the exception of the rollback when it raises; it does not
  return \<^verbatim>\<open>True\<close>.
\<close>

theorem migrate_keeps_drop:
  assumes "path_exists E (resolve_schema E p)"
    and "path_exists E (join (dirname (resolve_schema E p)) ''drop_all.sql'')"
    and "file_text E (join (dirname (resolve_schema E p)) ''drop_all.sql'') = Some c"
    and "\<not> faults E 0" and "\<not> faults E 1" and "\<not> faults E 2" and "\<not> faults E 3"
    and "file_text E (resolve_schema E p) = None \<or> faults E 4 \<or> faults E 5"
  shows "committed (snd (migrate E p (cli url d))) = batch E c d \<and>
    Rollback \<in> set (trace (snd (migrate E p (cli url d)))) \<and>
    take 8 (trace (snd (migrate E p (cli url d)))) =
      [Print ''=== Running Database Migrations ==='' [], ConnectCall url, CursorCall,
       Print ''Connected to database successfully'' [],
       Print ''Step 1: Dropping all existing tables and objects...'' [],
       OpenFile (join (dirname (resolve_schema E p)) ''drop_all.sql''),
       Execute (Batch c), Commit] \<and>
    fst (migrate E p (cli url d)) =
      (if faults E (schema_rollback_call E p)
       then Inl (Psycopg2Error (fault_text E (schema_rollback_call E p)))
       else Inr False) \<and>
    fst (migrate E p (cli url d)) \<noteq> Inr True"
  by (rule migrate_outcome [OF assms])

lemma resolve_default_schema:
  "resolve_schema env_unreadable ''backend/sql/schema.sql'' = ''/app/backend/sql/schema.sql''"
  by (simp add: resolve_schema_def isabs_def dirname_def join_def env_unreadable_def env0_def)

lemma default_drop_script:
  "join (dirname ''/app/backend/sql/schema.sql'') ''drop_all.sql'' =
     ''/app/backend/sql/drop_all.sql''"
  by (simp add: isabs_def dirname_def join_def)

theorem migrate_keeps_drop_witness:
  "fst (migrate env_unreadable ''backend/sql/schema.sql'' (cli ''postgres://db'' db0)) =
     Inr False \<and>
   tables (committed (snd (migrate env_unreadable ''backend/sql/schema.sql''
     (cli ''postgres://db'' db0)))) = [] \<and>
   tables db0 = [''users'', ''menus'']"
proof -
  have ex: "path_exists env_unreadable p" for p
    by (simp add: env_unreadable_def env0_def)
  have dr: "file_text env_unreadable
      (join (dirname (resolve_schema env_unreadable ''backend/sql/schema.sql'')) ''drop_all.sql'')
      = Some ''/app/backend/sql/drop_all.sql''"
    by (simp add: resolve_default_schema default_drop_script) (simp add: env_unreadable_def env0_def)
  have nf: "\<not> faults env_unreadable n" for n
    by (simp add: env_unreadable_def env0_def)
  have sc: "file_text env_unreadable (resolve_schema env_unreadable ''backend/sql/schema.sql'')
      = None \<or> faults env_unreadable 4 \<or> faults env_unreadable 5"
    by (simp add: resolve_default_schema) (simp add: env_unreadable_def env0_def)
  show ?thesis
    using migrate_keeps_drop [OF ex ex dr nf nf nf nf sc, of "''postgres://db''" db0]
    by (simp add: env_unreadable_def env0_def db0_def)
qed

text \<open>
  C6, as stated, fails in its last part: when the session is lost at the schema batch,
  the drop is committed (no table is left), the engine rejects the schema batch, the
  rollback raises, and \<^verbatim>\<open>migrate\<close> ends with that exception after \<^verbatim>\<open>disconnect()\<close>; it does
  not return \<^verbatim>\<open>False\<close>.
\<close>

theorem migrate_lost_session_counterexample:
  "fst (migrate (env_lost 4) ''backend/sql/schema.sql'' (cli ''postgres://db'' db0)) =
     Inl (Psycopg2Error ''server closed the connection'') \<and>
   tables (committed (snd (migrate (env_lost 4) ''backend/sql/schema.sql''
     (cli ''postgres://db'' db0)))) = [] \<and>
   tables db0 = [''users'', ''menus''] \<and>
   count_list (trace (snd (migrate (env_lost 4) ''backend/sql/schema.sql''
     (cli ''postgres://db'' db0)))) Disconnect = 1"
proof -
  have e: "path_exists (env_lost 4) q" "file_text (env_lost 4) q = Some q"
    "faults (env_lost 4) n = (4 \<le> n)" "fault_text (env_lost 4) n = ''server closed the connection''"
    "batch (env_lost 4) q d = d\<lparr>tables := []\<rparr>" for q n d
    by (simp_all add: env_lost_def env0_def)
  have r: "schema_rollback_call (env_lost 4) ''backend/sql/schema.sql'' = 5"
    by (simp add: schema_rollback_call_def e)
  from migrate_outcome [of "env_lost 4" "''backend/sql/schema.sql''"
      "''/app/backend/sql/drop_all.sql''" "''postgres://db''" db0]
    count_migrate [of "env_lost 4" "''backend/sql/schema.sql''" "cli ''postgres://db'' db0"]
  show ?thesis
    by (simp add: e r sample_paths db0_def cli_def fresh_def)
qed

subsection \<open>The dry run\<close>

lemma show_orphans:
  "forE (map (orphan_row d) ms) (show_orphan E) w =
     (Inr (), w\<lparr>trace := trace w @ map (report d) ms\<rparr>)"
  by (induction ms arbitrary: w)
     (simp_all add: show_orphan_def orphan_row_def report_def run_defs)

lemma emits_dry_run: "emits no_write (cleanup_orphaned_menus E True)"
  unfolding cleanup_orphaned_menus_def cleanup_body_def show_orphan_def if_True
  by (intro emits_all allI impI) (simp_all add: emits_all Let_def split: prod.splits)

lemma dry_run_reports:
  assumes "\<not> faults E 0" and "\<not> faults E 1" and "\<not> faults E 2"
  shows "fst (cleanup_orphaned_menus E True (cli url d)) = Inr True \<and>
    trace (snd (cleanup_orphaned_menus E True (cli url d))) = dry_run_log url d"
  using assms
  by (simp add: cleanup_orphaned_menus_def cleanup_body_def show_orphans dry_run_log_def
      run_defs numeral_eq_Suc)

text \<open>
  C7. A dry run of \<^verbatim>\<open>cleanup_orphaned_menus\<close> never deletes. Whatever the database, the
  number of orphaned menus and the calls at which the engine raises, the log holds no
  \<^verbatim>\<open>DELETE\<close>, no other writing statement and no commit, and the committed database is
  what it was. When the connection and the query succeed (engine calls 0 to 2 do not
  raise) the run returns \<^verbatim>\<open>True\<close> and its log is \<open>dry_run_log\<close>: one report line for
  each orphaned menu, or the line that the database is clean.
\<close>

theorem dry_run_never_deletes:
  "Execute DeleteOrphans \<notin> set (trace (snd (cleanup_orphaned_menus E True (cli url d)))) \<and>
   list_all no_write (trace (snd (cleanup_orphaned_menus E True (cli url d)))) \<and>
   committed (snd (cleanup_orphaned_menus E True (cli url d))) = d \<and>
   (\<not> faults E 0 \<and> \<not> faults E 1 \<and> \<not> faults E 2 \<longrightarrow>
      fst (cleanup_orphaned_menus E True (cli url d)) = Inr True \<and>
      trace (snd (cleanup_orphaned_menus E True (cli url d))) = dry_run_log url d)"
proof -
  have "ext no_write (cli url d) (snd (cleanup_orphaned_menus E True (cli url d)))"
    using emits_dry_run by (simp add: emits_def)
  then have a: "list_all no_write (trace (snd (cleanup_orphaned_menus E True (cli url d)))) \<and>
      committed (snd (cleanup_orphaned_menus E True (cli url d))) = d"
    by (auto simp: ext_def cli_def fresh_def list_all_iff)
  then have b:
    "Execute DeleteOrphans \<notin> set (trace (snd (cleanup_orphaned_menus E True (cli url d))))"
    by (auto simp: list_all_iff)
  show ?thesis using a b dry_run_reports by blast
qed

theorem dry_run_never_deletes_witness:
  "\<not> faults env0 0 \<and> \<not> faults env0 1 \<and> \<not> faults env0 2 \<and> orphans db0 \<noteq> [] \<and>
   fst (cleanup_orphaned_menus env0 True (cli ''postgres://db'' db0)) = Inr True \<and>
   committed (snd (cleanup_orphaned_menus env0 True (cli ''postgres://db'' db0))) = db0 \<and>
   Execute DeleteOrphans \<notin>
     set (trace (snd (cleanup_orphaned_menus env0 True (cli ''postgres://db'' db0))))"
proof -
  have f: "\<not> faults env0 0 \<and> \<not> faults env0 1 \<and> \<not> faults env0 2"
    by (simp add: env0_def)
  have o: "orphans db0 \<noteq> []"
    by (simp add: orphans_def is_orphan_def db0_def)
  show ?thesis
    using f o dry_run_never_deletes [of env0 "''postgres://db''" db0] by blast
qed

subsection \<open>The confirmation prompt\<close>

lemma of_char_lower:
  "(of_char (lower_char c) :: nat) =
     (if 65 \<le> (of_char c :: nat) \<and> (of_char c :: nat) \<le> 90 then of_char c + 32
      else of_char c)"
  by (simp add: lower_char_def Let_def)

lemma lower_char_iff:
  assumes "(of_char l :: nat) = of_char u + 32"
    and "65 \<le> (of_char u :: nat)" and "(of_char u :: nat) \<le> 90"
  shows "lower_char c = l \<longleftrightarrow> c = l \<or> c = u"
proof -
  have "lower_char c = l \<longleftrightarrow> (of_char (lower_char c) :: nat) = of_char l"
    by (simp add: of_char_eq_iff)
  also have "\<dots> \<longleftrightarrow> (of_char c :: nat) = of_char l \<or> (of_char c :: nat) = of_char u"
    using assms by (auto simp: of_char_lower)
  also have "\<dots> \<longleftrightarrow> c = l \<or> c = u"
    by (simp add: of_char_eq_iff)
  finally show ?thesis .
qed

lemma lower_y: "lower_char c = CHR ''y'' \<longleftrightarrow> c = CHR ''y'' \<or> c = CHR ''Y''"
  by (rule lower_char_iff) simp_all
lemma lower_e: "lower_char c = CHR ''e'' \<longleftrightarrow> c = CHR ''e'' \<or> c = CHR ''E''"
  by (rule lower_char_iff) simp_all
lemma lower_s: "lower_char c = CHR ''s'' \<longleftrightarrow> c = CHR ''s'' \<or> c = CHR ''S''"
  by (rule lower_char_iff) simp_all

lemma lower_yes: "lower r = ''yes'' \<longleftrightarrow> r \<in> set yes_spellings"
proof -
  have "lower r = ''yes'' \<longleftrightarrow>
     (\<exists>a b c. r = [a, b, c] \<and> lower_char a = CHR ''y'' \<and> lower_char b = CHR ''e'' \<and>
        lower_char c = CHR ''s'')"
    by (auto simp: lower_def map_eq_Cons_conv)
  also have "\<dots> \<longleftrightarrow> r \<in> set yes_spellings"
    by (auto simp: lower_y lower_e lower_s yes_spellings_def)
  finally show ?thesis .
qed

lemma abort_run:
  assumes "\<not> faults E 0" and "\<not> faults E 1" and "\<not> faults E 2"
    and "orphans d \<noteq> []" and "stdin E = Some r" and "lower r \<noteq> ''yes''"
  shows "fst (cleanup_orphaned_menus E False (cli url d)) = Inr False \<and>
    trace (snd (cleanup_orphaned_menus E False (cli url d))) = abort_log url d \<and>
    committed (snd (cleanup_orphaned_menus E False (cli url d))) = d"
  using assms
  by (simp add: cleanup_orphaned_menus_def cleanup_body_def show_orphans abort_log_def
      run_defs numeral_eq_Suc)

lemma abort_log_no_delete: "Execute DeleteOrphans \<notin> set (abort_log url d)"
  by (auto simp: abort_log_def report_def)

lemma then_execute_logged:
  assumes "emits P n" and "thenE (execute E s) n w = (r, w')"
  shows "Execute s \<in> set (trace w')"
proof (cases "execute E s w")
  case (Pair r1 w1)
  have t1: "Execute s \<in> set (trace w1)"
    using Pair by (auto simp: execute_def Let_def emit_def tick_def split: if_splits prod.splits)
  show ?thesis
  proof (cases r1)
    case (Inl e)
    with Pair assms(2) t1 show ?thesis by (simp add: thenE_def bindE_def)
  next
    case (Inr u)
    with Pair assms(2) have "n w1 = (r, w')" by (simp add: thenE_def bindE_def)
    from emitsD [OF assms(1) this] t1 show ?thesis by (auto simp: ext_def)
  qed
qed

lemma cleanup_delete_logged:
  "cleanup_delete E w = (r, w') \<Longrightarrow> Execute DeleteOrphans \<in> set (trace w')"
  unfolding cleanup_delete_def
  by (erule then_execute_logged [where P = "\<lambda>e. True", rotated]) (intro emits_all, simp_all)

lemma proceed_run:
  assumes "\<not> faults E 0" and "\<not> faults E 1" and "\<not> faults E 2"
    and "orphans d \<noteq> []" and "stdin E = Some r" and "lower r = ''yes''"
  shows "Execute DeleteOrphans \<in> set (trace (snd (cleanup_orphaned_menus E False (cli url d))))"
  using assms
  by (auto simp add: cleanup_orphaned_menus_def cleanup_body_def show_orphans
      run_defs numeral_eq_Suc split: prod.splits sum.splits dest: cleanup_delete_logged)

lemma cleanup_connected:
  assumes "\<not> faults E 0" and "\<not> faults E (Suc 0)"
  shows "cleanup_orphaned_menus E dr (cli url d) =
    (fst (cleanup_try E dr (connected ''=== Cleaning Up Orphaned Menus ==='' url d)),
     snd (disconnect (snd (cleanup_try E dr
       (connected ''=== Cleaning Up Orphaned Menus ==='' url d)))))"
  unfolding cleanup_orphaned_menus_def command_connected [OF assms] finally_disconnect_run ..

lemma delete_guarded:
  assumes "conn w" and "cursor w" and "\<not> faults E (clock w)" and "\<not> faults E (Suc (clock w))"
  shows "menus (committed (snd (catchE (cleanup_delete E)
        (on_error E ''Error cleaning up orphaned menus: {}'') w))) =
      filter (\<lambda>m. \<not> is_orphan (working w) m) (menus (working w)) \<and>
    (\<not> faults E (Suc (Suc (clock w))) \<and> \<not> faults E (Suc (Suc (Suc (clock w)))) \<longrightarrow>
      fst (catchE (cleanup_delete E)
        (on_error E ''Error cleaning up orphaned menus: {}'') w) = Inr True) \<and>
    conn (snd (catchE (cleanup_delete E)
        (on_error E ''Error cleaning up orphaned menus: {}'') w)) \<and>
    cursor (snd (catchE (cleanup_delete E)
        (on_error E ''Error cleaning up orphaned menus: {}'') w))"
proof (cases "faults E (Suc (Suc (clock w)))")
  case True
  show ?thesis
    by (cases "faults E (Suc (Suc (Suc (clock w))))")
      (use assms True in \<open>simp_all add: cleanup_delete_def run_defs\<close>)
next
  case False
  show ?thesis
  proof (cases "faults E (Suc (Suc (Suc (clock w))))")
    case t: True
    show ?thesis
      by (cases "faults E (Suc (Suc (Suc (Suc (clock w)))))")
        (use assms False t in \<open>simp_all add: cleanup_delete_def run_defs\<close>)
  next
    case f: False
    with assms False show ?thesis
      by (simp add: cleanup_delete_def run_defs)
  qed
qed

lemma cleanup_to_delete:
  assumes "cursor w" and "\<not> faults E (clock w)" and "orphans (working w) \<noteq> []"
    and "stdin E = Some r" and "lower r = ''yes''"
  shows "cleanup_try E False w =
    catchE (cleanup_delete E) (on_error E ''Error cleaning up orphaned menus: {}'') (prompted w)"
  using assms
  by (simp add: cleanup_body_def show_orphans prompted_def catchE_def thenE_def bindE_def
      print_def emit_def tick_def execute_def fetchall_def input_def Let_def)

lemma proceed_deletes:
  assumes "\<not> faults E 0" and "\<not> faults E 1" and "\<not> faults E 2"
    and "orphans d \<noteq> []" and "stdin E = Some r" and "lower r = ''yes''"
    and "\<not> faults E 3" and "\<not> faults E 4"
  shows "menus (committed (snd (cleanup_orphaned_menus E False (cli url d)))) =
     filter (\<lambda>m. \<not> is_orphan d m) (menus d)"
proof -
  let ?W = "connected ''=== Cleaning Up Orphaned Menus ==='' url d"
  have f: "\<not> faults E 0" "\<not> faults E (Suc 0)" using assms by simp_all
  have c: "cleanup_try E False ?W =
      catchE (cleanup_delete E) (on_error E ''Error cleaning up orphaned menus: {}'') (prompted ?W)"
    by (rule cleanup_to_delete) (use assms in \<open>simp_all add: connected_facts\<close>)
  have p: "conn (prompted ?W)" "cursor (prompted ?W)" "clock (prompted ?W) = 3"
    "working (prompted ?W) = d"
    by (simp_all add: prompted_def connected_facts)
  have "\<not> faults E (clock (prompted ?W))" "\<not> faults E (Suc (clock (prompted ?W)))"
    using assms by (simp_all add: p numeral_eq_Suc)
  from delete_guarded [OF p(1,2) this]
  show ?thesis
    by (simp add: cleanup_connected [OF f] c disconnect_run emit_def p)
qed

lemma proceed_succeeds:
  assumes "\<not> faults E 0" and "\<not> faults E 1" and "\<not> faults E 2"
    and "orphans d \<noteq> []" and "stdin E = Some r" and "lower r = ''yes''"
    and "\<not> faults E 3" and "\<not> faults E 4" and "\<not> faults E 5" and "\<not> faults E 6"
  shows "fst (cleanup_orphaned_menus E False (cli url d)) = Inr True"
proof -
  let ?W = "connected ''=== Cleaning Up Orphaned Menus ==='' url d"
  have f: "\<not> faults E 0" "\<not> faults E (Suc 0)" using assms by simp_all
  have c: "cleanup_try E False ?W =
      catchE (cleanup_delete E) (on_error E ''Error cleaning up orphaned menus: {}'') (prompted ?W)"
    by (rule cleanup_to_delete) (use assms in \<open>simp_all add: connected_facts\<close>)
  have p: "conn (prompted ?W)" "cursor (prompted ?W)" "clock (prompted ?W) = 3"
    by (simp_all add: prompted_def connected_facts)
  have "\<not> faults E (clock (prompted ?W))" "\<not> faults E (Suc (clock (prompted ?W)))"
    using assms by (simp_all add: p numeral_eq_Suc)
  from delete_guarded [OF p(1,2) this] assms(9,10)
  show ?thesis
    by (simp add: cleanup_connected [OF f] c p numeral_eq_Suc)
qed

text \<open>
  C1, as the code has it. Once the orphaned menus are listed and the prompt is answered
  with \<open>r\<close> (the connection and the query succeeded, there is an orphan, input is not at
  its end), the \<^verbatim>\<open>DELETE\<close> is sent exactly when \<open>r\<close> lower-cases to \<^verbatim>\<open>yes\<close>, that is when
  \<open>r\<close> is \<^verbatim>\<open>yes\<close> in any mixture of upper and lower case. Every other answer makes the
  command return \<^verbatim>\<open>False\<close> with the log \<open>abort_log\<close>, which holds no \<^verbatim>\<open>DELETE\<close> and no
  commit, and the committed database is what it was. After an accepting answer, when the
  engine accepts the \<^verbatim>\<open>DELETE\<close> and its commit (calls 3 and 4), the committed \<^verbatim>\<open>menus\<close>
  table is the old one without its orphans.
\<close>

theorem confirmation_gate:
  assumes "\<not> faults E 0" and "\<not> faults E 1" and "\<not> faults E 2"
    and "orphans d \<noteq> []" and "stdin E = Some r"
  shows "(Execute DeleteOrphans \<in> set (trace (snd (cleanup_orphaned_menus E False (cli url d)))))
      = (lower r = ''yes'') \<and>
    (lower r = ''yes'') = (r \<in> set yes_spellings) \<and>
    (r \<notin> set yes_spellings \<longrightarrow>
      fst (cleanup_orphaned_menus E False (cli url d)) = Inr False \<and>
      trace (snd (cleanup_orphaned_menus E False (cli url d))) = abort_log url d \<and>
      committed (snd (cleanup_orphaned_menus E False (cli url d))) = d) \<and>
    (r \<in> set yes_spellings \<and> \<not> faults E 3 \<and> \<not> faults E 4 \<longrightarrow>
      menus (committed (snd (cleanup_orphaned_menus E False (cli url d)))) =
        filter (\<lambda>m. \<not> is_orphan d m) (menus d))"
proof (cases "lower r = ''yes''")
  case True
  from proceed_run [OF assms True] proceed_deletes [OF assms True] True lower_yes [of r]
  show ?thesis by simp
next
  case False
  from abort_run [OF assms False, of url] abort_log_no_delete [of url d] False lower_yes [of r]
  show ?thesis by simp
qed

theorem confirmation_gate_witness:
  "stdin env_no = Some ''no'' \<and> orphans db0 \<noteq> [] \<and>
   fst (cleanup_orphaned_menus env_no False (cli ''postgres://db'' db0)) = Inr False \<and>
   committed (snd (cleanup_orphaned_menus env_no False (cli ''postgres://db'' db0))) = db0 \<and>
   Execute DeleteOrphans \<notin>
     set (trace (snd (cleanup_orphaned_menus env_no False (cli ''postgres://db'' db0))))"
proof -
  have f: "\<not> faults env_no n" for n
    by (simp add: env_no_def env0_def)
  have o: "orphans db0 \<noteq> []"
    by (simp add: orphans_def is_orphan_def db0_def)
  have s: "stdin env_no = Some ''no''"
    by (simp add: env_no_def env0_def)
  have n: "''no'' \<notin> set yes_spellings \<and> lower ''no'' \<noteq> ''yes''"
    by (simp add: yes_spellings_def lower_def)
  show ?thesis
    using o s n confirmation_gate [OF f f f o s, of "''postgres://db''"] by blast
qed

text \<open>
  C1, as stated, fails: the answer \<^verbatim>\<open>YES\<close> is not the string \<^verbatim>\<open>yes\<close>, yet the deletion
  proceeds, the only menu of the sample database is deleted and the command returns
  \<^verbatim>\<open>True\<close>.
\<close>

theorem uppercase_yes_counterexample:
  "''YES'' \<noteq> ''yes'' \<and> stdin env0 = Some ''YES'' \<and>
   fst (cleanup_orphaned_menus env0 False (cli ''postgres://db'' db0)) = Inr True \<and>
   Execute DeleteOrphans \<in>
     set (trace (snd (cleanup_orphaned_menus env0 False (cli ''postgres://db'' db0)))) \<and>
   menus (committed (snd (cleanup_orphaned_menus env0 False (cli ''postgres://db'' db0)))) = [] \<and>
   menus db0 \<noteq> []"
proof -
  have l: "lower ''YES'' = ''yes''"
    by (simp add: lower_yes yes_spellings_def)
  have f: "\<not> faults env0 n" for n by (simp add: env0_def)
  have s: "stdin env0 = Some ''YES''" by (simp add: env0_def)
  have o: "orphans db0 \<noteq> []" by (simp add: orphans_def is_orphan_def db0_def)
  have m: "filter (\<lambda>m. \<not> is_orphan db0 m) (menus db0) = []" "menus db0 \<noteq> []"
    by (simp_all add: is_orphan_def db0_def)
  from proceed_succeeds [OF f f f o s l f f f f, of "''postgres://db''"]
    proceed_run [OF f f f o s l, of "''postgres://db''"]
    proceed_deletes [OF f f f o s l f f, of "''postgres://db''"] s m
  show ?thesis by simp
qed

subsection \<open>\<^verbatim>\<open>reset\<close>\<close>

lemma drop_table_step:
  assumes "drop_table E [S t] w = (Inr (), w')"
  shows "working w' = (working w)\<lparr>tables := removeAll t (tables (working w))\<rparr> \<and>
    committed w' = committed w \<and> cursor w' = cursor w \<and> conn w' = conn w \<and>
    count_list (trace w') Commit = count_list (trace w) Commit"
  using assms
  by (auto simp: drop_table_def run_defs split: if_splits)

lemma drop_tables_loop:
  assumes "forE (map (\<lambda>t. [S t]) ts) (drop_table E) w = (Inr (), w')"
  shows "(\<exists>ts'. working w' = (working w)\<lparr>tables := ts'\<rparr> \<and>
      set ts' = set (tables (working w)) - set ts) \<and>
    committed w' = committed w \<and> cursor w' = cursor w \<and> conn w' = conn w \<and>
    count_list (trace w') Commit = count_list (trace w) Commit"
  using assms
proof (induction ts arbitrary: w)
  case Nil
  then have "w' = w" by (simp add: returnE_def)
  moreover have "working w = (working w)\<lparr>tables := tables (working w)\<rparr>" by simp
  ultimately show ?case by (metis Diff_empty list.set(1))
next
  case (Cons t ts)
  obtain r1 w1 where s: "drop_table E [S t] w = (r1, w1)" by (cases "drop_table E [S t] w")
  with Cons.prems have r1: "r1 = Inr ()"
    and rest: "forE (map (\<lambda>t. [S t]) ts) (drop_table E) w1 = (Inr (), w')"
    by (auto simp: bindE_def split: sum.splits)
  from drop_table_step [OF s [unfolded r1]] Cons.IH [OF rest] show ?case
    by auto
qed

lemma drop_type_step:
  assumes "drop_type E [S t] w = (Inr (), w')"
  shows "working w' = (working w)\<lparr>enums := removeAll t (enums (working w))\<rparr> \<and>
    committed w' = committed w \<and> cursor w' = cursor w \<and> conn w' = conn w \<and>
    count_list (trace w') Commit = count_list (trace w) Commit"
  using assms
  by (auto simp: drop_type_def run_defs split: if_splits)

lemma drop_types_loop:
  assumes "forE (map (\<lambda>t. [S t]) ts) (drop_type E) w = (Inr (), w')"
  shows "(\<exists>ts'. working w' = (working w)\<lparr>enums := ts'\<rparr> \<and>
      set ts' = set (enums (working w)) - set ts) \<and>
    committed w' = committed w \<and> cursor w' = cursor w \<and> conn w' = conn w \<and>
    count_list (trace w') Commit = count_list (trace w) Commit"
  using assms
proof (induction ts arbitrary: w)
  case Nil
  then have "w' = w" by (simp add: returnE_def)
  moreover have "working w = (working w)\<lparr>enums := enums (working w)\<rparr>" by simp
  ultimately show ?case by (metis Diff_empty list.set(1))
next
  case (Cons t ts)
  obtain r1 w1 where s: "drop_type E [S t] w = (r1, w1)" by (cases "drop_type E [S t] w")
  with Cons.prems have r1: "r1 = Inr ()"
    and rest: "forE (map (\<lambda>t. [S t]) ts) (drop_type E) w1 = (Inr (), w')"
    by (auto simp: bindE_def split: sum.splits)
  from drop_type_step [OF s [unfolded r1]] Cons.IH [OF rest] show ?case
    by auto
qed

lemma reset_guarded_success:
  assumes "reset_try E w = (Inr True, w')" and "tables (working w) \<noteq> []"
  shows "tables (committed w') = [] \<and> enums (committed w') = [] \<and>
    count_list (trace w') Commit = Suc (count_list (trace w) Commit)"
  using assms
  apply (simp add: reset_body_def run_defs split: if_splits prod.splits sum.splits)
  apply (auto dest!: drop_tables_loop drop_types_loop)
  done

lemma reset_connected:
  assumes "\<not> faults E 0" and "\<not> faults E (Suc 0)"
  shows "reset E (cli url d) =
    (fst (reset_try E (connected ''=== Resetting Database ==='' url d)),
     snd (disconnect (snd (reset_try E (connected ''=== Resetting Database ==='' url d)))))"
  unfolding reset_def command_connected [OF assms] finally_disconnect_run ..

text \<open>
  Where the database has at least one table, a run of \<^verbatim>\<open>reset\<close> that returns \<^verbatim>\<open>True\<close> has
  committed once, and no table and no enum type is left.
\<close>

lemma reset_with_tables:
  assumes "fst (reset E (cli url d)) = Inr True" and "tables d \<noteq> []"
  shows "tables (committed (snd (reset E (cli url d)))) = [] \<and>
    enums (committed (snd (reset E (cli url d)))) = [] \<and>
    count_list (trace (snd (reset E (cli url d)))) Commit = 1"
proof (cases "faults E 0 \<or> faults E (Suc 0)")
  case True
  from command_not_connected [OF True, where hdr = "''=== Resetting Database ===''"
      and G = "finallyE (reset_try E) disconnect" and url = url and d = d] assms
  show ?thesis by (simp add: reset_def)
next
  case False
  then have f: "\<not> faults E 0" "\<not> faults E (Suc 0)" by simp_all
  let ?W = "connected ''=== Resetting Database ==='' url d"
  obtain w2 where t: "reset_try E ?W = (Inr True, w2)"
    using assms by (cases "reset_try E ?W") (simp add: reset_connected [OF f])
  from reset_guarded_success [OF t] assms(2)
  show ?thesis
    by (simp add: reset_connected [OF f] t disconnect_run emit_def connected_facts)
qed

text \<open>
  C2. The claim fails on the code where the public schema has enum types and no table:
  \<^verbatim>\<open>reset\<close> prints that there are no tables to drop and returns \<^verbatim>\<open>True\<close> from inside
  the \<^verbatim>\<open>try\<close>, before the enum types are enumerated. No \<^verbatim>\<open>DROP TYPE\<close> is sent, nothing is
  committed, and the enum type is still there after the successful run.
\<close>

theorem reset_without_tables_keeps_enums:
  "tables db_types_only = [] \<and> enums db_types_only = [''user_type''] \<and>
   fst (reset env0 (cli ''postgres://db'' db_types_only)) = Inr True \<and>
   enums (committed (snd (reset env0 (cli ''postgres://db'' db_types_only)))) = [''user_type''] \<and>
   trace (snd (reset env0 (cli ''postgres://db'' db_types_only))) =
     [Print ''=== Resetting Database ==='' [], ConnectCall ''postgres://db'', CursorCall,
      Print ''Connected to database successfully'' [], Execute SelectTables,
      Print ''No tables to drop'' [], Disconnect, CursorClose, ConnClose,
      Print ''Database connection closed'' []]"
  by (simp add: reset_def reset_body_def run_defs env0_def db0_def db_types_only_def)

subsection \<open>One transaction for the whole seed\<close>

lemma ran_refl: "cursor w \<Longrightarrow> ran E [] w w"
  by (simp add: ran_def inserted_users_def stmts_of_def apply_stmts_def)

lemma ran_trans: "ran E us w w' \<Longrightarrow> ran E vs w' w'' \<Longrightarrow> ran E (us @ vs) w w''"
  unfolding ran_def
  apply (elim exE conjE, intro conjI)
      apply (rule_tac x = "evs @ evsa" in exI)
      apply (simp add: inserted_users_def stmts_of_def apply_stmts_def)
     apply auto
  done

lemma seed_user_ran:
  assumes "seed_user E (u, m, p, t) w = (Inr (), w')" and "cursor w"
  shows "ran E [u] w w'"
  using assms
  by (auto simp: seed_user_def seed_profile_def run_defs ran_def inserted_users_def stmts_of_def
      apply_stmts_def usernames_def split: if_splits prod.splits list.splits)

lemma seed_loop_ran:
  assumes "forE us (seed_user E) w = (Inr (), w')" and "cursor w"
  shows "ran E (map fst us) w w'"
  using assms
proof (induction us arbitrary: w)
  case Nil
  then show ?case by (simp add: returnE_def ran_refl)
next
  case (Cons x us)
  obtain u m p t where x: "x = (u, m, p, t)" by (cases x)
  obtain r1 w1 where s: "seed_user E (u, m, p, t) w = (r1, w1)"
    by (cases "seed_user E (u, m, p, t) w")
  with Cons.prems x have r1: "r1 = Inr ()"
    and rest: "forE us (seed_user E) w1 = (Inr (), w')"
    by (auto simp: bindE_def split: sum.splits)
  from seed_user_ran [OF s [unfolded r1] Cons.prems(2)] have a: "ran E [u] w w1" .
  then have "cursor w1" by (simp add: ran_def)
  from ran_trans [OF a Cons.IH [OF rest this]] x show ?case by simp
qed

lemma emits_seed_loop: "emits quiet (forE us (seed_user E))"
  unfolding seed_user_def seed_profile_def
  by (intro emits_all allI impI) (simp_all add: emits_all quiet_def split: prod.splits)

lemma ext_quiet:
  assumes "ext quiet w w'"
  shows "committed w' = committed w \<and>
    count_list (trace w') Commit = count_list (trace w) Commit \<and>
    count_list (trace w') Rollback = count_list (trace w) Rollback"
proof -
  from assms obtain evs where e: "trace w' = trace w @ evs" "list_all quiet evs"
    "Commit \<notin> set evs \<longrightarrow> committed w' = committed w"
    unfolding ext_def by blast
  from e(2) have n: "Commit \<notin> set evs" "Rollback \<notin> set evs"
    by (auto simp: quiet_def list_all_iff)
  with e show ?thesis by (simp add: count_list_0_iff)
qed

lemma seed_guarded_failure:
  assumes "conn w"
    and "fst (seed_try E w) \<noteq> Inr True"
  shows "committed (snd (seed_try E w)) = committed w \<and>
    count_list (trace (snd (seed_try E w))) Commit \<le> Suc (count_list (trace w) Commit) \<and>
    count_list (trace (snd (seed_try E w))) Rollback = Suc (count_list (trace w) Rollback) \<and>
    conn (snd (seed_try E w))"
proof -
  let ?w0 = "emit (Print ''Creating sample users...'' []) w"
  obtain r1 w1 where l: "forE sample_users (seed_user E) ?w0 = (r1, w1)"
    by (cases "forE sample_users (seed_user E) ?w0")
  from ext_quiet [OF emitsD [OF emits_seed_loop l]] emitsD [OF emits_seed_loop l] assms(1)
  have q: "committed w1 = committed w" "count_list (trace w1) Commit = count_list (trace w) Commit"
    "count_list (trace w1) Rollback = count_list (trace w) Rollback" "conn w1"
    by (simp_all add: emit_def ext_def)
  show ?thesis
  proof (cases r1)
    case (Inl e)
    show ?thesis
      by (cases "faults E (clock w1)")
         (use l Inl q in \<open>simp_all add: seed_body_def run_defs\<close>)
  next
    case (Inr u)
    show ?thesis
    proof (cases "faults E (clock w1)")
      case True
      show ?thesis
        by (cases "faults E (Suc (clock w1))")
          (use l Inr q True in \<open>simp_all add: seed_body_def run_defs\<close>)
    next
      case False
      with l Inr q assms(2) show ?thesis
        by (simp add: seed_body_def run_defs)
    qed
  qed
qed

lemma seed_guarded_success:
  assumes "cursor w"
    and "seed_try E w = (Inr True, w')"
  shows "\<exists>evs. trace w' = trace w @ Print ''Creating sample users...'' [] # evs @ take 7 seed_suffix \<and>
    Commit \<notin> set evs \<and> Rollback \<notin> set evs \<and>
    inserted_users evs = map fst sample_users \<and>
    committed w' = apply_stmts E (stmts_of evs) (working w) \<and>
    set (map fst sample_users) \<subseteq> usernames (committed w') \<and>
    conn w' = conn w \<and> cursor w'"
proof -
  let ?w0 = "emit (Print ''Creating sample users...'' []) w"
  obtain r1 w1 where l: "forE sample_users (seed_user E) ?w0 = (r1, w1)"
    by (cases "forE sample_users (seed_user E) ?w0")
  show ?thesis
  proof (cases r1)
    case (Inl e)
    with l assms(2) handler_not_True [of E "''Error seeding database: {}''" "[S (str_exn e)]" w1]
    show ?thesis
      by (simp add: seed_body_def catchE_def thenE_def bindE_def print_def)
  next
    case (Inr u)
    with l have l': "forE sample_users (seed_user E) ?w0 = (Inr (), w1)" by simp
    have "cursor ?w0" using assms(1) by (simp add: emit_def)
    from seed_loop_ran [OF l' this] obtain evs where
      r: "trace w1 = trace ?w0 @ evs" "Commit \<notin> set evs" "Rollback \<notin> set evs"
        "inserted_users evs = map fst sample_users"
        "working w1 = apply_stmts E (stmts_of evs) (working ?w0)"
        "committed w1 = committed ?w0" "cursor w1" "conn w1 = conn ?w0"
        "usernames (working ?w0) \<union> set (map fst sample_users) \<subseteq> usernames (working w1)"
      unfolding ran_def by blast
    show ?thesis
    proof (cases "conn w1 \<and> \<not> faults E (clock w1)")
      case True
      with l Inr assms(2) have "w' = snd (seed_try E w)"
        by simp
      with True l Inr r show ?thesis
        by (simp add: seed_body_def run_defs seed_suffix_def)
    next
      case False
      then have "fst (seed_try E w) \<noteq> Inr True"
        using l Inr by (auto simp add: seed_body_def run_defs)
      with assms(2) show ?thesis by simp
    qed
  qed
qed

lemma seed_connected:
  assumes "\<not> faults E 0" and "\<not> faults E (Suc 0)"
  shows "seed E (cli url d) =
    (fst (seed_try E (connected ''=== Seeding Database ==='' url d)),
     snd (disconnect (snd (seed_try E (connected ''=== Seeding Database ==='' url d)))))"
  unfolding seed_def command_connected [OF assms] finally_disconnect_run ..

lemma seed_failure:
  assumes "fst (seed E (cli url d)) \<noteq> Inr True"
  shows "committed (snd (seed E (cli url d))) = d \<and>
    count_list (trace (snd (seed E (cli url d)))) Commit \<le> 1 \<and>
    (\<not> faults E 0 \<and> \<not> faults E 1 \<longrightarrow>
       count_list (trace (snd (seed E (cli url d)))) Rollback = 1)"
proof (cases "faults E 0 \<or> faults E (Suc 0)")
  case True
  from command_not_connected [OF True, where hdr = "''=== Seeding Database ===''"
      and G = "finallyE (seed_try E) disconnect" and url = url and d = d] True
  show ?thesis
    by (auto simp: seed_def list_all_iff count_list_0_iff)
next
  case False
  then have f: "\<not> faults E 0" "\<not> faults E (Suc 0)" by simp_all
  let ?W = "connected ''=== Seeding Database ==='' url d"
  from assms have "fst (seed_try E ?W) \<noteq> Inr True"
    by (simp add: seed_connected [OF f])
  from seed_guarded_failure [OF connected_facts(1) this]
  show ?thesis
    by (simp add: seed_connected [OF f] disconnect_run emit_def connected_facts)
qed

lemma seed_success_shape:
  assumes "fst (seed E (cli url d)) = Inr True"
  shows "\<exists>evs. trace (snd (seed E (cli url d))) = seed_prefix url @ evs @ seed_suffix \<and>
    Commit \<notin> set evs \<and> Rollback \<notin> set evs \<and>
    inserted_users evs = map fst sample_users \<and>
    committed (snd (seed E (cli url d))) = apply_stmts E (stmts_of evs) d \<and>
    set (map fst sample_users) \<subseteq> usernames (committed (snd (seed E (cli url d))))"
proof (cases "faults E 0 \<or> faults E (Suc 0)")
  case True
  from command_not_connected [OF True, where hdr = "''=== Seeding Database ===''"
      and G = "finallyE (seed_try E) disconnect" and url = url and d = d] assms
  show ?thesis by (simp add: seed_def)
next
  case False
  then have f: "\<not> faults E 0" "\<not> faults E (Suc 0)" by simp_all
  let ?W = "connected ''=== Seeding Database ==='' url d"
  obtain w2 where t: "seed_try E ?W = (Inr True, w2)"
    using assms by (cases "seed_try E ?W") (simp add: seed_connected [OF f])
  from seed_guarded_success [OF connected_facts(2) t] obtain evs where
    e: "trace w2 = trace ?W @ Print ''Creating sample users...'' [] # evs @ take 7 seed_suffix"
      "Commit \<notin> set evs" "Rollback \<notin> set evs" "inserted_users evs = map fst sample_users"
      "committed w2 = apply_stmts E (stmts_of evs) (working ?W)"
      "set (map fst sample_users) \<subseteq> usernames (committed w2)"
      "conn w2 = conn ?W" "cursor w2" by blast
  have "trace (snd (seed E (cli url d))) = seed_prefix url @ evs @ seed_suffix"
    using e by (simp add: seed_connected [OF f] t disconnect_open connected_facts
        seed_prefix_def seed_suffix_def)
  moreover have "committed (snd (seed E (cli url d))) = committed w2"
    using e by (simp add: seed_connected [OF f] t disconnect_open connected_facts)
  ultimately show ?thesis using e by (auto simp: connected_facts)
qed

lemma seed_user_total:
  assumes "cursor w" and "\<And>n. \<not> faults E n"
  shows "\<exists>w'. seed_user E x w = (Inr (), w') \<and> cursor w' \<and> conn w' = conn w"
proof -
  obtain u m p t where x: "x = (u, m, p, t)" by (cases x)
  show ?thesis
    unfolding x using assms
    by (cases "u \<in> username ` set (users (working w))")
       (simp_all add: seed_user_def seed_profile_def run_defs)
qed

lemma seed_loop_total:
  assumes "cursor w" and "\<And>n. \<not> faults E n"
  shows "\<exists>w'. forE us (seed_user E) w = (Inr (), w') \<and> cursor w' \<and> conn w' = conn w"
  using assms(1)
proof (induction us arbitrary: w)
  case Nil
  then show ?case by (simp add: returnE_def)
next
  case (Cons x us)
  from seed_user_total [OF Cons.prems assms(2), of x] obtain w1 where
    s: "seed_user E x w = (Inr (), w1)" "cursor w1" "conn w1 = conn w" by blast
  from Cons.IH [OF s(2)] s show ?case by (auto simp: bindE_def)
qed

lemma seed_succeeds:
  assumes "\<And>n. \<not> faults E n"
  shows "fst (seed E (cli url d)) = Inr True"
proof -
  let ?W = "connected ''=== Seeding Database ==='' url d"
  let ?w0 = "emit (Print ''Creating sample users...'' []) ?W"
  have "cursor ?w0" by (simp add: emit_def connected_facts)
  from seed_loop_total [OF this assms, of sample_users] obtain w1 where
    l: "forE sample_users (seed_user E) ?w0 = (Inr (), w1)" "cursor w1" "conn w1 = conn ?w0"
    by blast
  then have "conn w1" by (simp add: emit_def connected_facts)
  with l assms show ?thesis
    unfolding seed_connected [OF assms assms]
    by (simp add: seed_body_def run_defs)
qed

lemma seed_rejected:
  "fst (seed env_reject (cli ''postgres://db'' db0)) \<noteq> Inr True"
proof -
  have f: "\<not> faults env_reject 0" "\<not> faults env_reject (Suc 0)"
    by (simp_all add: env_reject_def env0_def)
  show ?thesis
    unfolding seed_connected [OF f]
    by (simp add: seed_body_def seed_user_def seed_profile_def
        sample_users_def run_defs connected_def env_reject_def env0_def db0_def next_id_def)
qed

lemma stmts_of_append: "stmts_of (xs @ ys) = stmts_of xs @ stmts_of ys"
  by (simp add: stmts_of_def)

lemma inserted_users_append: "inserted_users (xs @ ys) = inserted_users xs @ inserted_users ys"
  by (simp add: inserted_users_def stmts_of_def)

text \<open>
  C4. A run of \<^verbatim>\<open>seed\<close> that returns \<^verbatim>\<open>True\<close> has called \<^verbatim>\<open>commit\<close> exactly once; before
  that call it sent the \<^verbatim>\<open>users\<close> inserts of all four sample users, in their order; after
  it no statement was sent; it never rolled back; and the committed database is the old
  one with every statement of the run applied. A run that does not return \<^verbatim>\<open>True\<close>
  (an exception in the batch, or no connection) leaves the committed database as it was,
  whatever part of the batch the engine had accepted, has called \<^verbatim>\<open>commit\<close> at most once
  (the rejected one), and, when it had connected, has called \<^verbatim>\<open>rollback\<close> once.
\<close>

theorem seed_commits_all_or_nothing:
  "(fst (seed E (cli url d)) = Inr True \<longrightarrow>
      count_list (trace (snd (seed E (cli url d)))) Commit = 1 \<and>
      inserted_users (takeWhile (\<lambda>e. e \<noteq> Commit) (trace (snd (seed E (cli url d))))) =
        [''customer1'', ''vendor1'', ''driver1'', ''admin1''] \<and>
      stmts_of (dropWhile (\<lambda>e. e \<noteq> Commit) (trace (snd (seed E (cli url d))))) = [] \<and>
      Rollback \<notin> set (trace (snd (seed E (cli url d)))) \<and>
      committed (snd (seed E (cli url d))) =
        apply_stmts E (stmts_of (trace (snd (seed E (cli url d))))) d) \<and>
   (fst (seed E (cli url d)) \<noteq> Inr True \<longrightarrow>
      committed (snd (seed E (cli url d))) = d \<and>
      count_list (trace (snd (seed E (cli url d)))) Commit \<le> 1 \<and>
      (\<not> faults E 0 \<and> \<not> faults E 1 \<longrightarrow>
         count_list (trace (snd (seed E (cli url d)))) Rollback = 1))"
proof (intro conjI impI)
  assume ok: "fst (seed E (cli url d)) = Inr True"
  let ?t = "trace (snd (seed E (cli url d)))"
  from seed_success_shape [OF ok] obtain evs where
    t: "?t = seed_prefix url @ evs @ seed_suffix"
    and nc: "Commit \<notin> set evs" and nr: "Rollback \<notin> set evs"
    and iu: "inserted_users evs = map fst sample_users"
    and co: "committed (snd (seed E (cli url d))) = apply_stmts E (stmts_of evs) d"
    by blast
  have pre: "\<forall>e \<in> set (seed_prefix url @ evs). e \<noteq> Commit"
    using nc by (auto simp: seed_prefix_def)
  have "takeWhile (\<lambda>e. e \<noteq> Commit) ((seed_prefix url @ evs) @ seed_suffix) =
      (seed_prefix url @ evs) @ takeWhile (\<lambda>e. e \<noteq> Commit) seed_suffix"
    by (rule takeWhile_append2) (use pre in blast)
  then have tw: "takeWhile (\<lambda>e. e \<noteq> Commit) ?t = seed_prefix url @ evs"
    unfolding t by (simp add: seed_suffix_def)
  have "dropWhile (\<lambda>e. e \<noteq> Commit) ((seed_prefix url @ evs) @ seed_suffix) =
      dropWhile (\<lambda>e. e \<noteq> Commit) seed_suffix"
    by (rule dropWhile_append2) (use pre in blast)
  then have dw: "dropWhile (\<lambda>e. e \<noteq> Commit) ?t = seed_suffix"
    unfolding t by (simp add: seed_suffix_def)
  show "count_list ?t Commit = 1"
    using nc unfolding t by (simp add: seed_prefix_def seed_suffix_def count_list_0_iff)
  show "inserted_users (takeWhile (\<lambda>e. e \<noteq> Commit) ?t) =
      [''customer1'', ''vendor1'', ''driver1'', ''admin1'']"
    unfolding tw using iu
    by (simp add: inserted_users_append) (simp add: inserted_users_def stmts_of_def
        seed_prefix_def sample_users_def)
  show "stmts_of (dropWhile (\<lambda>e. e \<noteq> Commit) ?t) = []"
    unfolding dw by (simp add: stmts_of_def seed_suffix_def)
  show "Rollback \<notin> set ?t"
    using nr unfolding t by (simp add: seed_prefix_def seed_suffix_def)
  show "committed (snd (seed E (cli url d))) = apply_stmts E (stmts_of ?t) d"
    unfolding co t by (simp add: stmts_of_append) (simp add: stmts_of_def seed_prefix_def
        seed_suffix_def)
next
  assume "fst (seed E (cli url d)) \<noteq> Inr True"
  from seed_failure [OF this]
  show "committed (snd (seed E (cli url d))) = d"
    and "count_list (trace (snd (seed E (cli url d)))) Commit \<le> 1" by simp_all
next
  assume "fst (seed E (cli url d)) \<noteq> Inr True" and "\<not> faults E 0 \<and> \<not> faults E 1"
  with seed_failure [of E url d]
  show "count_list (trace (snd (seed E (cli url d)))) Rollback = 1" by simp
qed

theorem seed_commits_all_or_nothing_witness:
  "fst (seed env0 (cli ''postgres://db'' db0)) = Inr True \<and>
   count_list (trace (snd (seed env0 (cli ''postgres://db'' db0)))) Commit = 1 \<and>
   fst (seed env_reject (cli ''postgres://db'' db0)) \<noteq> Inr True \<and>
   committed (snd (seed env_reject (cli ''postgres://db'' db0))) = db0"
proof -
  have a: "fst (seed env0 (cli ''postgres://db'' db0)) = Inr True"
    by (rule seed_succeeds) (simp add: env0_def)
  note b = seed_rejected
  show ?thesis
    using a b seed_commits_all_or_nothing [of env0 "''postgres://db''" db0]
      seed_commits_all_or_nothing [of env_reject "''postgres://db''" db0]
    by blast
qed

subsection \<open>Seeding twice\<close>










end
